theory Spec2Isabelle
  imports Main "HOL-Library.Word" "HOL-Library.AList"
begin

unbundle bit_operations_syntax

section \<open>Values of the host language\<close>

text \<open>
  The comparator \<open>deepEqual\<close> inspects arbitrary JavaScript values. Primitives are compared
  by value, objects by reference, so objects live in a heap and a value only holds their
  address. A heap may be cyclic: that is what the depth guard of \<open>deepEqual\<close> is for.
  Numbers are IEEE-754 doubles, kept as their 64-bit pattern; the only operation the code
  applies to them is \<open>===\<close>.
\<close>

type_synonym addr = nat
type_synonym float64 = "64 word"

datatype val =
    VUndefined
  | VNull
  | VBool bool
  | VNum float64
  | VStr string
  | VBigInt int
  | VSym nat
  | VRef addr

text \<open>What a \<open>throw\<close> raises: the callbacks may throw any value, the decorator an \<open>Error\<close>.\<close>

datatype error = Thrown val

text \<open>
  A property of an object, as far as reading it goes: whether \<open>Object.keys\<close> lists it, and
  what reading it gives. A data property gives its value; an accessor gives what its getter
  returns, or throws what the getter throws.
\<close>

datatype field = Field (enumerable: bool) (readResult: "error + val")

text \<open>
  The shapes of object that \<open>deepEqual\<close> tells apart: \<open>Array.isArray\<close>,
  \<open>instanceof Map / Set / Date / RegExp\<close>, a direct prototype equal to
  \<open>Object.prototype\<close> (\<open>Plain\<close>), any other object (\<open>Other\<close>: class instances, objects
  without prototype) and functions (the only objects whose \<open>typeof\<close> is not \<open>object\<close>).
  An array carries its slots up to \<open>length\<close>, where a hole is \<open>None\<close>; a Date its time
  value (\<open>getTime()\<close>), a RegExp the text of \<open>toString()\<close>, a Map its entries and a Set its
  members in insertion order (their keys and members are distinct, as these collections
  guarantee), plain and other objects their own properties with string names in the order
  of \<open>Object.keys\<close>, each name once.
  These are the objects of a program that leaves the built-in methods which \<open>deepEqual\<close>
  calls as they are (\<open>every\<close>, \<open>some\<close>, \<open>getTime\<close>, \<open>toString\<close> of a RegExp, the
  methods and iterators of Map and Set) and whose array elements are data properties. An
  object that is \<open>instanceof\<close> Map, Set, Date or RegExp is one that the constructor has
  made; an object that merely inherits from such a prototype, on which these methods throw,
  and \<open>Proxy\<close> objects, whose traps can make any inspection throw, are not among them.
\<close>

datatype objkind =
    Array (elems: "val option list")
  | MapObj (entries: "(val \<times> val) list")
  | SetObj (members: "val list")
  | DateObj (getTime: float64)
  | RegExpObj (toString: string)
  | Plain (plainFields: "(string \<times> field) list")
  | Other (ownFields: "(string \<times> field) list")
  | Function

text \<open>
  An object may expose a property \<open>equals\<close> that is a function (its own or inherited).
  It is code of the caller: it may return any value and it may throw. \<open>deepEqual\<close> reads
  the property and calls it at once, so a property \<open>equals\<close> whose getter throws is the
  same to it as a function that throws, and is kept as such.
\<close>

record jsobj =
  kind :: objkind
  equalsFn :: "(val \<Rightarrow> error + val) option"

text \<open>
  The heap holds the objects, the properties of \<open>Object.prototype\<close> (which every plain
  object inherits: \<open>constructor\<close>, \<open>toString\<close>, the accessor \<open>__proto__\<close> and whatever
  the program has added), and the number of further nested calls of \<open>deepEqual\<close> that the
  call stack of the engine has room for, each counted with the frames of the library
  function and of the callback that make it. A call that is under way always has its own
  frame; a nested call for which there is no room throws a \<open>RangeError\<close>.
  A custom \<open>equals\<close> and the getters of accessors read the heap without changing it.
\<close>

record heap =
  objs :: "addr \<Rightarrow> jsobj"
  objectPrototype :: "(string \<times> field) list"
  stackRoom :: nat

definition rangeError :: error where
  "rangeError = Thrown (VStr ''RangeError: Maximum call stack size exceeded'')"

datatype jstype = TUndefined | TObject | TBoolean | TNumber | TString | TBigInt | TSymbol | TFunction

fun typeof :: "heap \<Rightarrow> val \<Rightarrow> jstype" where
  "typeof h VUndefined = TUndefined"
| "typeof h VNull = TObject"
| "typeof h (VBool b) = TBoolean"
| "typeof h (VNum x) = TNumber"
| "typeof h (VStr s) = TString"
| "typeof h (VBigInt i) = TBigInt"
| "typeof h (VSym n) = TSymbol"
| "typeof h (VRef p) = (if kind (objs h p) = Function then TFunction else TObject)"

subsection \<open>Comparison of primitives\<close>

definition isNaN :: "float64 \<Rightarrow> bool" where
  "isNaN x \<longleftrightarrow> x AND 0x7FF0000000000000 = 0x7FF0000000000000 \<and> x AND 0x000FFFFFFFFFFFFF \<noteq> 0"

definition isZero :: "float64 \<Rightarrow> bool" where
  "isZero x \<longleftrightarrow> x AND 0x7FFFFFFFFFFFFFFF = 0"

text \<open>\<open>x === y\<close> on numbers: NaN differs from everything, the two zeros are equal.\<close>

definition numEq :: "float64 \<Rightarrow> float64 \<Rightarrow> bool" where
  "numEq x y \<longleftrightarrow> \<not> isNaN x \<and> \<not> isNaN y \<and> (x = y \<or> (isZero x \<and> isZero y))"

text \<open>\<open>a === b\<close>: numbers as above, other primitives by value, objects by address.\<close>

fun strictEq :: "val \<Rightarrow> val \<Rightarrow> bool" where
  "strictEq (VNum x) (VNum y) = numEq x y"
| "strictEq a b = (a = b)"

text \<open>SameValueZero, the key comparison of \<open>Map.prototype.has\<close> and \<open>get\<close>.\<close>

fun sameValueZero :: "val \<Rightarrow> val \<Rightarrow> bool" where
  "sameValueZero (VNum x) (VNum y) = ((isNaN x \<and> isNaN y) \<or> numEq x y)"
| "sameValueZero a b = (a = b)"

text \<open>\<open>a == null\<close> holds for \<open>null\<close> and \<open>undefined\<close> only.\<close>

definition looseNull :: "val \<Rightarrow> bool" where
  "looseNull a \<longleftrightarrow> a = VNull \<or> a = VUndefined"

text \<open>ToBoolean, applied by \<open>every\<close>, \<open>some\<close>, \<open>!\<close> and \<open>&&\<close> to what a callback returns.\<close>

fun toBoolean :: "val \<Rightarrow> bool" where
  "toBoolean VUndefined = False"
| "toBoolean VNull = False"
| "toBoolean (VBool b) = b"
| "toBoolean (VNum x) = (\<not> isNaN x \<and> \<not> isZero x)"
| "toBoolean (VStr s) = (s \<noteq> [])"
| "toBoolean (VBigInt i) = (i \<noteq> 0)"
| "toBoolean (VSym n) = True"
| "toBoolean (VRef p) = True"

subsection \<open>The depth, a double\<close>

text \<open>
  The parameter \<open>depth\<close> is a number, that is a double; the model keeps the integers among
  them, as integers. Up to \<open>2 ^ 53\<close> in absolute value every integer is a double and
  \<open>depth - 1\<close> is exact. Beyond, a double has 53 significant bits and the result of the
  subtraction is rounded to the nearest double, ties to the even significand:
  \<open>2 ^ 54 - 1\<close> is \<open>2 ^ 54\<close> again. (Overflow to infinity, beyond \<open>2 ^ 1024\<close>, is left
  out.)
\<close>

fun bitLength :: "nat \<Rightarrow> nat" where
  "bitLength n = (if n = 0 then 0 else Suc (bitLength (n div 2)))"

declare bitLength.simps [simp del]

definition roundDouble :: "int \<Rightarrow> int" where
  "roundDouble n =
     (if \<bar>n\<bar> \<le> 2 ^ 53 then n
      else
        (let e = bitLength (nat \<bar>n\<bar>) - 53;
             q = \<bar>n\<bar> div 2 ^ e;
             r = \<bar>n\<bar> mod 2 ^ e;
             q' = (if 2 * r > 2 ^ e \<or> (2 * r = 2 ^ e \<and> odd q) then q + 1 else q)
         in sgn n * q' * 2 ^ e))"

definition minusOne :: "int \<Rightarrow> int" where
  "minusOne depth = roundDouble (depth - 1)"

subsection \<open>Library operations used by the comparator\<close>

text \<open>\<open>xs[i]\<close> on an argument list: reading past the end gives \<open>undefined\<close>.\<close>

definition idx :: "val list \<Rightarrow> nat \<Rightarrow> val" where
  "idx xs i = (if i < length xs then xs ! i else VUndefined)"

text \<open>\<open>b[i]\<close> on an array: a hole, like an index past the end, reads as \<open>undefined\<close>.\<close>

definition elemAt :: "val option list \<Rightarrow> nat \<Rightarrow> val" where
  "elemAt xs i =
     (if i < length xs then (case xs ! i of Some v \<Rightarrow> v | None \<Rightarrow> VUndefined) else VUndefined)"

text \<open>
  The pairs of index and value that \<open>a.every(callback)\<close> visits on an array: \<open>every\<close>
  skips the holes.
\<close>

fun presentFrom :: "nat \<Rightarrow> val option list \<Rightarrow> (nat \<times> val) list" where
  "presentFrom i [] = []"
| "presentFrom i (None # xs) = presentFrom (Suc i) xs"
| "presentFrom i (Some v # xs) = (i, v) # presentFrom (Suc i) xs"

definition present :: "val option list \<Rightarrow> (nat \<times> val) list" where
  "present xs = presentFrom 0 xs"

text \<open>
  \<open>Array.prototype.every\<close> and \<open>some\<close> with a callback that may throw: they stop at the first
  falsy (truthy) answer, an exception of the callback leaves the loop, and the result is a
  boolean.
\<close>

fun everyE :: "('a \<Rightarrow> error + val) \<Rightarrow> 'a list \<Rightarrow> error + val" where
  "everyE f [] = Inr (VBool True)"
| "everyE f (x # xs) =
     (case f x of
        Inl e \<Rightarrow> Inl e
      | Inr v \<Rightarrow> if toBoolean v then everyE f xs else Inr (VBool False))"

fun someE :: "('a \<Rightarrow> error + val) \<Rightarrow> 'a list \<Rightarrow> error + val" where
  "someE f [] = Inr (VBool False)"
| "someE f (x # xs) =
     (case f x of
        Inl e \<Rightarrow> Inl e
      | Inr v \<Rightarrow> if toBoolean v then Inr (VBool True) else someE f xs)"

definition mapHas :: "(val \<times> val) list \<Rightarrow> val \<Rightarrow> bool" where
  "mapHas es key = list_ex (\<lambda>(k, v). sameValueZero k key) es"

definition mapGet :: "(val \<times> val) list \<Rightarrow> val \<Rightarrow> val" where
  "mapGet es key =
     (case find (\<lambda>(k, v). sameValueZero k key) es of Some (k, v) \<Rightarrow> v | None \<Rightarrow> VUndefined)"

text \<open>\<open>Object.keys(o)\<close>: the names of the own enumerable properties.\<close>

definition objectKeys :: "(string \<times> field) list \<Rightarrow> string list" where
  "objectKeys fs = map fst (filter (\<lambda>(k, f). enumerable f) fs)"

text \<open>
  \<open>o[key]\<close> on a plain object: the own property of that name, enumerable or not, else the
  property that \<open>Object.prototype\<close> has under that name, else \<open>undefined\<close>. Reading an
  accessor runs its getter.
\<close>

definition propRead :: "heap \<Rightarrow> (string \<times> field) list \<Rightarrow> string \<Rightarrow> error + val" where
  "propRead h fs key =
     (case map_of fs key of
        Some f \<Rightarrow> readResult f
      | None \<Rightarrow>
          (case map_of (objectPrototype h) key of
             Some f \<Rightarrow> readResult f
           | None \<Rightarrow> Inr VUndefined))"

text \<open>The test of the array fast path: \<open>null\<close>, \<open>undefined\<close> or not an object or function.\<close>

definition isPrimitive :: "heap \<Rightarrow> val \<Rightarrow> bool" where
  "isPrimitive h item \<longleftrightarrow>
     item = VNull \<or> item = VUndefined \<or> (typeof h item \<noteq> TObject \<and> typeof h item \<noteq> TFunction)"

section \<open>The equality engine\<close>

text \<open>
  \<open>deepEqual(a, b, depth = 100)\<close>, branch by branch in the order of the source. The two
  values that pass the \<open>typeof\<close> tests are references. Every recursive call is made at
  \<open>depth - 1\<close>, after the guard \<open>depth <= 0\<close> has failed, and needs room on the call stack:
  \<open>nested\<close> is such a call. The recursion ends because the stack is finite; for depths up
  to \<open>2 ^ 53\<close> the guard ends it first when the stack has room for \<open>depth\<close> nested calls.
\<close>

function deepEqual :: "heap \<Rightarrow> val \<Rightarrow> val \<Rightarrow> int \<Rightarrow> error + val" where
  "deepEqual h a b depth =
     (if depth \<le> 0 then Inr (VBool False)
      else if strictEq a b then Inr (VBool True)
      else if looseNull a \<or> looseNull b then Inr (VBool False)
      else if typeof h a \<noteq> typeof h b then Inr (VBool False)
      else if typeof h a \<noteq> TObject \<and> typeof h a \<noteq> TFunction then Inr (VBool False)
      else (case (a, b) of
        (VRef p, VRef q) \<Rightarrow>
          (let ka = kind (objs h p); kb = kind (objs h q);
               nested = (\<lambda>x y. if stackRoom h = 0 then Inl rangeError
                                else deepEqual (h\<lparr>stackRoom := stackRoom h - 1\<rparr>) x y
                                               (minusOne depth))
           in
           if is_DateObj ka \<and> is_DateObj kb then Inr (VBool (numEq (getTime ka) (getTime kb)))
           else if is_RegExpObj ka \<and> is_RegExpObj kb then Inr (VBool (toString ka = toString kb))
           else if is_Array ka \<and> is_Array kb then
             (if length (elems ka) \<noteq> length (elems kb) then Inr (VBool False)
              else if list_all (\<lambda>(i, item). isPrimitive h item) (present (elems ka)) then
                Inr (VBool (list_all (\<lambda>(i, v). strictEq v (elemAt (elems kb) i))
                                     (present (elems ka))))
              else everyE (\<lambda>(i, v). nested v (elemAt (elems kb) i)) (present (elems ka)))
           else if is_MapObj ka \<and> is_MapObj kb then
             (if length (entries ka) \<noteq> length (entries kb) then Inr (VBool False)
              else everyE (\<lambda>(key, v).
                             if \<not> mapHas (entries kb) key then Inr (VBool False)
                             else nested v (mapGet (entries kb) key))
                          (entries ka))
           else if is_SetObj ka \<and> is_SetObj kb then
             (if length (members ka) \<noteq> length (members kb) then Inr (VBool False)
              else everyE (\<lambda>item. someE (\<lambda>bItem. nested item bItem) (members kb))
                          (members ka))
           else if is_Plain ka \<and> is_Plain kb then
             (if length (objectKeys (plainFields ka)) \<noteq> length (objectKeys (plainFields kb))
              then Inr (VBool False)
              else everyE (\<lambda>key.
                             case propRead h (plainFields ka) key of
                               Inl e \<Rightarrow> Inl e
                             | Inr x \<Rightarrow>
                                 (case propRead h (plainFields kb) key of
                                    Inl e \<Rightarrow> Inl e
                                  | Inr y \<Rightarrow> nested x y))
                          (objectKeys (plainFields ka)))
           else (case equalsFn (objs h p) of
                   Some equals \<Rightarrow> equals b
                 | None \<Rightarrow> Inr (VBool False)))
      | _ \<Rightarrow> Inr (VBool False)))"
  by pat_completeness auto
termination
  by (relation "measure (\<lambda>(h, a, b, depth). stackRoom h)") auto

declare deepEqual.simps [simp del]

text \<open>A call that leaves the third parameter out runs at the default depth.\<close>

definition deepEqualDefault :: "heap \<Rightarrow> val \<Rightarrow> val \<Rightarrow> error + val" where
  "deepEqualDefault h a b = deepEqual h a b 100"

subsection \<open>Predicates used to state properties of the comparator\<close>

text \<open>The number NaN, the one value that \<open>===\<close> does not relate to itself.\<close>

fun isNaNValue :: "val \<Rightarrow> bool" where
  "isNaNValue (VNum x) = isNaN x"
| "isNaNValue v = False"

text \<open>Every custom \<open>equals\<close> found in the heap answers with a boolean and does not throw.\<close>

definition equalsWellBehaved :: "heap \<Rightarrow> bool" where
  "equalsWellBehaved h \<longleftrightarrow>
     (\<forall>p equals b. equalsFn (objs h p) = Some equals \<longrightarrow> (\<exists>r. equals b = Inr (VBool r)))"

text \<open>
  No property read on a plain object throws: the getters of the accessors among its own
  properties and among the properties of \<open>Object.prototype\<close> return.
\<close>

definition readsWellBehaved :: "heap \<Rightarrow> bool" where
  "readsWellBehaved h \<longleftrightarrow>
     (\<forall>p key. is_Plain (kind (objs h p)) \<longrightarrow>
        (\<exists>v. propRead h (plainFields (kind (objs h p))) key = Inr v))"

text \<open>The shapes with a branch of their own: arrays, Maps, Sets, Dates and RegExps.\<close>

definition builtinShape :: "objkind \<Rightarrow> bool" where
  "builtinShape k \<longleftrightarrow>
     is_Array k \<or> is_MapObj k \<or> is_SetObj k \<or> is_DateObj k \<or> is_RegExpObj k"

text \<open>
  A recursive call as \<open>deepEqual\<close> makes it from depth \<open>depth\<close>, written out for the
  statements below: it needs room on the stack and runs at \<open>depth - 1\<close>.
\<close>

definition nestedCall :: "heap \<Rightarrow> int \<Rightarrow> val \<Rightarrow> val \<Rightarrow> error + val" where
  "nestedCall h depth x y =
     (if stackRoom h = 0 then Inl rangeError
      else deepEqual (h\<lparr>stackRoom := stackRoom h - 1\<rparr>) x y (minusOne depth))"

section \<open>The cache cell of a memoized method\<close>

text \<open>
  \<open>createMemoizedMethod\<close> closes over three variables, the state of one cell:
  \<open>previousArgs\<close>, \<open>calledOnce\<close> and \<open>cachedResult\<close>.
\<close>

record cell =
  previousArgs :: "val list"
  calledOnce :: bool
  cachedResult :: val

definition newCell :: cell where
  "newCell = \<lparr>previousArgs = [], calledOnce = False, cachedResult = VUndefined\<rparr>"

text \<open>
  The wrapped method is code of the caller. It receives \<open>this\<close> and the arguments, returns a
  value or throws, and may change the world around it (counters, logs, fields), which is
  threaded through as a state of type \<open>'w\<close>. The heap that \<open>deepEqual\<close> reads is the heap at
  the time of the call; the wrapped method is taken not to change the cell itself.
\<close>

type_synonym 'w jsmethod = "val \<Rightarrow> val list \<Rightarrow> 'w \<Rightarrow> (error + val) \<times> 'w"

text \<open>
  \<open>calledOnce && previousArgs.length === args.length && args.every((arg, i) => deepEqual(arg,
  previousArgs[i]))\<close>: the conjunction stops at its first false operand, and an exception of
  the comparison leaves the call.
\<close>

definition isSame :: "heap \<Rightarrow> cell \<Rightarrow> val list \<Rightarrow> error + bool" where
  "isSame h c args =
     (if \<not> calledOnce c then Inr False
      else if length (previousArgs c) \<noteq> length args then Inr False
      else (case everyE (\<lambda>i. deepEqualDefault h (args ! i) (idx (previousArgs c) i))
                        [0 ..< length args] of
              Inl e \<Rightarrow> Inl e
            | Inr v \<Rightarrow> Inr (toBoolean v)))"

text \<open>
  \<open>memoizedFn\<close>: on a hit the cached result; otherwise the arguments are copied into
  \<open>previousArgs\<close> first, then the original method runs, and only when it has returned are
  \<open>cachedResult\<close> and \<open>calledOnce\<close> assigned. The result is what the caller sees, the
  cell after the call, and the world after the call.
\<close>

definition memoizedFn ::
  "heap \<Rightarrow> 'w jsmethod \<Rightarrow> val \<Rightarrow> cell \<Rightarrow> val list \<Rightarrow> 'w \<Rightarrow> (error + val) \<times> cell \<times> 'w" where
  "memoizedFn h originalMethod this c args w =
     (case isSame h c args of
        Inl e \<Rightarrow> (Inl e, c, w)
      | Inr True \<Rightarrow> (Inr (cachedResult c), c, w)
      | Inr False \<Rightarrow>
          (let c1 = c\<lparr>previousArgs := args\<rparr> in
           case originalMethod this args w of
             (Inl e, w') \<Rightarrow> (Inl e, c1, w')
           | (Inr r, w') \<Rightarrow> (Inr r, c1\<lparr>cachedResult := r, calledOnce := True\<rparr>, w')))"

definition clearMemo :: "cell \<Rightarrow> cell" where
  "clearMemo c = c\<lparr>previousArgs := [], cachedResult := VUndefined, calledOnce := False\<rparr>"

subsection \<open>Observing invocations\<close>

text \<open>A method that counts its own invocations, as the tests do with \<open>computeCount++\<close>.\<close>

definition counted :: "'w jsmethod \<Rightarrow> (nat \<times> 'w) jsmethod" where
  "counted f this args = (\<lambda>(n, w). case f this args w of (r, w') \<Rightarrow> (r, (Suc n, w')))"

text \<open>A comparison holds when it returns a truthy value, and answers no when it returns a falsy one.\<close>

fun holds :: "error + val \<Rightarrow> bool" where
  "holds (Inr v) = toBoolean v"
| "holds (Inl e) = False"

fun answersNo :: "error + val \<Rightarrow> bool" where
  "answersNo (Inr v) = (\<not> toBoolean v)"
| "answersNo (Inl e) = False"

text \<open>
  The hit condition in words: a call has completed, the lengths agree, and \<open>deepEqual\<close> holds
  at every position. The miss condition: no call has completed, or the lengths differ, or
  \<open>deepEqual\<close> answers no at some position and holds at every position before it. The
  comparison throws \<open>e\<close> when a call has completed, the lengths agree, and \<open>deepEqual\<close>
  throws \<open>e\<close> at some position and holds at every position before it.
\<close>

definition hitCondition :: "heap \<Rightarrow> cell \<Rightarrow> val list \<Rightarrow> bool" where
  "hitCondition h c args \<longleftrightarrow>
     calledOnce c \<and> length args = length (previousArgs c) \<and>
     (\<forall>i<length args. holds (deepEqualDefault h (args ! i) (previousArgs c ! i)))"

definition missCondition :: "heap \<Rightarrow> cell \<Rightarrow> val list \<Rightarrow> bool" where
  "missCondition h c args \<longleftrightarrow>
     \<not> calledOnce c \<or> length args \<noteq> length (previousArgs c) \<or>
     (\<exists>i<length args. answersNo (deepEqualDefault h (args ! i) (previousArgs c ! i)) \<and>
        (\<forall>j<i. holds (deepEqualDefault h (args ! j) (previousArgs c ! j))))"

definition throwCondition :: "heap \<Rightarrow> cell \<Rightarrow> val list \<Rightarrow> error \<Rightarrow> bool" where
  "throwCondition h c args e \<longleftrightarrow>
     calledOnce c \<and> length args = length (previousArgs c) \<and>
     (\<exists>i<length args. deepEqualDefault h (args ! i) (previousArgs c ! i) = Inl e \<and>
        (\<forall>j<i. holds (deepEqualDefault h (args ! j) (previousArgs c ! j))))"

section \<open>The time-bounded cell\<close>

text \<open>
  Modelled from the spec: the decorator \<open>memoizedTTL(ttl)\<close> is imported by the tests and by
  the TTL example, but the code that implements it is not among the source files. The state
  of a time-bounded cell follows section 3 of the specification: the stored arguments, the
  stored result or its absence, the flag \<open>hasRun\<close>, the time of the last computation or its
  absence, and the time-to-live in milliseconds, fixed at construction.
\<close>

record ttlCell =
  storedArgs :: "val list"
  storedResult :: "val option"
  hasRun :: bool
  computedAt :: "int option"
  ttlMillis :: nat

text \<open>
  Modelled from the spec: the initial state of a time-bounded cell (nothing stored, never
  run), for the missing constructor of \<open>memoizedTTL\<close>.
\<close>

definition newTtlCell :: "nat \<Rightarrow> ttlCell" where
  "newTtlCell ttl =
     \<lparr>storedArgs = [], storedResult = None, hasRun = False, computedAt = None, ttlMillis = ttl\<rparr>"

text \<open>
  Modelled from the spec: the argument rule of section 4.2 as the missing \<open>memoizedTTL\<close>
  applies it, \<open>args.length == storedArgs.length\<close> and \<open>equal(args[i], storedArgs[i])\<close> at
  every position, with the comparator of the source files at its default depth.
\<close>

definition argsEqual :: "heap \<Rightarrow> val list \<Rightarrow> val list \<Rightarrow> error + bool" where
  "argsEqual h args stored =
     (if length args \<noteq> length stored then Inr False
      else (case everyE (\<lambda>i. deepEqualDefault h (args ! i) (idx stored i)) [0 ..< length args] of
              Inl e \<Rightarrow> Inl e
            | Inr v \<Rightarrow> Inr (toBoolean v)))"

text \<open>
  Modelled from the spec: the freshness test of the missing \<open>memoizedTTL\<close>,
  \<open>elapsed = now() - computedAt\<close> and \<open>elapsed < ttlMillis\<close>, for a clock reading \<open>now\<close>
  in milliseconds.
\<close>

definition fresh :: "ttlCell \<Rightarrow> int \<Rightarrow> bool" where
  "fresh c now = (case computedAt c of None \<Rightarrow> False | Some t \<Rightarrow> now - t < int (ttlMillis c))"

text \<open>
  Modelled from the spec: the hit condition of the missing \<open>memoizedTTL\<close> (section 4.3),
  \<open>hasRun\<close> and arguments equal and \<open>elapsed < ttlMillis\<close>, tested in that order.
\<close>

definition ttlIsHit :: "heap \<Rightarrow> ttlCell \<Rightarrow> val list \<Rightarrow> int \<Rightarrow> error + bool" where
  "ttlIsHit h c args now =
     (if \<not> hasRun c then Inr False
      else (case argsEqual h args (storedArgs c) of
              Inl e \<Rightarrow> Inl e
            | Inr False \<Rightarrow> Inr False
            | Inr True \<Rightarrow> Inr (fresh c now)))"

text \<open>
  Modelled from the spec: \<open>invoke\<close> of the missing \<open>memoizedTTL\<close> (sections 4.3 and 7). On
  a hit the stored result is returned and the computation is not invoked. On a miss, by
  argument mismatch or by expiry, the computation runs; when it returns, the arguments, the
  result and the time of this invocation are stored and \<open>hasRun\<close> is set; when it throws,
  the error propagates and the cell stays as it was.
\<close>

definition invokeTTL ::
  "heap \<Rightarrow> 'w jsmethod \<Rightarrow> val \<Rightarrow> ttlCell \<Rightarrow> val list \<Rightarrow> int \<Rightarrow> 'w
     \<Rightarrow> (error + val) \<times> ttlCell \<times> 'w" where
  "invokeTTL h compute this c args now w =
     (case ttlIsHit h c args now of
        Inl e \<Rightarrow> (Inl e, c, w)
      | Inr True \<Rightarrow> (Inr (case storedResult c of Some r \<Rightarrow> r | None \<Rightarrow> VUndefined), c, w)
      | Inr False \<Rightarrow>
          (case compute this args w of
             (Inl e, w') \<Rightarrow> (Inl e, c, w')
           | (Inr r, w') \<Rightarrow>
               (Inr r,
                c\<lparr>storedArgs := args, storedResult := Some r, hasRun := True,
                  computedAt := Some now\<rparr>,
                w')))"

text \<open>
  Modelled from the spec: \<open>invalidate\<close> of the missing \<open>memoizedTTL\<close>, the reset of section
  4.2 that also clears \<open>computedAt\<close>.
\<close>

definition invalidateTTL :: "ttlCell \<Rightarrow> ttlCell" where
  "invalidateTTL c = c\<lparr>storedArgs := [], storedResult := None, hasRun := False, computedAt := None\<rparr>"

text \<open>The arguments are equal under the rule of the plain cell.\<close>

definition argsMatch :: "heap \<Rightarrow> val list \<Rightarrow> val list \<Rightarrow> bool" where
  "argsMatch h args stored \<longleftrightarrow>
     length args = length stored \<and>
     (\<forall>i<length args. holds (deepEqualDefault h (args ! i) (stored ! i)))"

section \<open>The decorator, the owning objects and the invalidation registry\<close>

text \<open>
  \<open>createMemoizedMethod\<close> returns a closure \<open>memoizedFn\<close> over a fresh cell and the original
  method. The closures live in a store, a list indexed by the number of the closure; the
  function \<open>clearMemo\<close> attached to a closure is identified by the same number.
  Owning objects are identified by their address; they are ordinary extensible objects. What
  the decorator leaves on an object is the own properties it defines there with
  \<open>Object.defineProperty\<close> (a memoized function or the value of a getter) and the slot
  \<open>__memoizedClearFns\<close>, which is absent at first and then an object that serves as a
  record from property names to \<open>clearMemo\<close> functions. Of that object the state keeps
  the own entries (each \<open>clearMemo\<close> resets a cell of its own, so the order in which
  \<open>Object.values\<close> lists them does not matter) and its prototype: \<open>Object.prototype\<close> at
  first (\<open>None\<close>), and the \<open>clearMemo\<close> function of a closure once an assignment to the
  key \<open>__proto__\<close> has made it so.
  The slot is a property of the object like any other; it is kept apart from the properties
  of the class, which is right for classes without a member named \<open>__memoizedClearFns\<close>.
\<close>

datatype ownProp = OwnFn nat | OwnVal val

record 'w mstate =
  cells :: "('w jsmethod \<times> cell) list"
  ownProps :: "addr \<Rightarrow> string \<Rightarrow> ownProp option"
  clearFns :: "addr \<Rightarrow> (string \<times> nat) list option"
  registryProto :: "addr \<Rightarrow> nat option"

definition initState :: "'w mstate" where
  "initState = \<lparr>cells = [], ownProps = (\<lambda>ob n. None), clearFns = (\<lambda>ob. None),
                 registryProto = (\<lambda>ob. None)\<rparr>"

text \<open>
  The assignment \<open>instance.__memoizedClearFns[key] = memoizedFn.clearMemo\<close> is an ordinary
  assignment in strict code, so it looks at the prototype chain of the registry:
  \<^item> under the key \<open>__proto__\<close> it reaches the setter that every object inherits from
    \<open>Object.prototype\<close>: the function becomes the prototype of the registry and no entry is
    made;
  \<^item> an own entry is overwritten;
  \<^item> once a function is the prototype, the keys \<open>name\<close> and \<open>length\<close> find a read-only
    property and the keys \<open>arguments\<close> and \<open>caller\<close> a setter that throws: the assignment
    throws a \<open>TypeError\<close>;
  \<^item> every other key gets a new own entry.
\<close>

definition functionReadOnly :: "string \<Rightarrow> bool" where
  "functionReadOnly key \<longleftrightarrow> key \<in> set [''name'', ''length'', ''arguments'', ''caller'']"

definition notAssignable :: error where
  "notAssignable = Thrown (VStr ''TypeError: cannot assign to property'')"

text \<open>
  \<open>createMemoizedMethod(originalMethod, key, instance?)\<close>: a new closure with a new cell; when
  an instance is given, its \<open>__memoizedClearFns\<close> is created if absent and the \<open>clearMemo\<close>
  of the new closure is assigned to it under \<open>key\<close>. The result is the number of the
  closure, or what the assignment throws.
\<close>

definition createMemoizedMethod ::
  "'w jsmethod \<Rightarrow> string \<Rightarrow> addr option \<Rightarrow> 'w mstate \<Rightarrow> (error + nat) \<times> 'w mstate" where
  "createMemoizedMethod originalMethod key instance st =
     (let cid = length (cells st);
          st1 = st\<lparr>cells := cells st @ [(originalMethod, newCell)]\<rparr>
      in case instance of
           None \<Rightarrow> (Inr cid, st1)
         | Some ob \<Rightarrow>
             (let fns = (case clearFns st1 ob of None \<Rightarrow> [] | Some r \<Rightarrow> r);
                  st2 = st1\<lparr>clearFns := (clearFns st1)(ob := Some fns)\<rparr>
              in if key = ''__proto__'' then
                   (Inr cid, st2\<lparr>registryProto := (registryProto st2)(ob := Some cid)\<rparr>)
                 else if map_of fns key = None \<and> registryProto st2 ob \<noteq> None \<and>
                         functionReadOnly key then
                   (Inl notAssignable, st2)
                 else
                   (Inr cid,
                    st2\<lparr>clearFns := (clearFns st2)(ob := Some (AList.update key cid fns))\<rparr>)))"

text \<open>
  Calling the closure \<open>cid\<close>, and calling its \<open>clearMemo\<close>. The numbers of closures are
  handed out by \<open>createMemoizedMethod\<close> only, so a number that is held by a property, a
  prototype or a registry is the index of a closure in the store.
\<close>

definition callFn ::
  "heap \<Rightarrow> nat \<Rightarrow> val \<Rightarrow> val list \<Rightarrow> 'w mstate \<Rightarrow> 'w \<Rightarrow> (error + val) \<times> 'w mstate \<times> 'w" where
  "callFn h cid this args st w =
     (case cells st ! cid of
        (originalMethod, c) \<Rightarrow>
          (case memoizedFn h originalMethod this c args w of
             (r, c', w') \<Rightarrow> (r, st\<lparr>cells := (cells st)[cid := (originalMethod, c')]\<rparr>, w')))"

definition clearMemoAt :: "nat \<Rightarrow> 'w mstate \<Rightarrow> 'w mstate" where
  "clearMemoAt cid st =
     st\<lparr>cells := (cells st)[cid := (fst (cells st ! cid), clearMemo (snd (cells st ! cid)))]\<rparr>"

text \<open>
  \<open>clearAllMemoized(instance)\<close>: when \<open>__memoizedClearFns\<close> is present, each of its values
  is called.
\<close>

definition clearAllMemoized :: "addr \<Rightarrow> 'w mstate \<Rightarrow> 'w mstate" where
  "clearAllMemoized instance st =
     (case clearFns st instance of
        None \<Rightarrow> st
      | Some fns \<Rightarrow> fold (\<lambda>(key, cid). clearMemoAt cid) fns st)"

subsection \<open>The decorator\<close>

text \<open>
  What \<open>memoized\<close> returns becomes a member of the prototype of the class:
  \<^item> legacy decorator on a method: a descriptor whose \<open>get\<close> creates the memoized function
    for \<open>this\<close> on first access (it captures the property key and the method);
  \<^item> legacy decorator on a getter: a descriptor whose \<open>get\<close> computes and defines the value;
  \<^item> stage 3 decorator on a method: the closure made by \<open>createMemoizedMethod\<close> when the
    class is defined;
  \<^item> stage 3 decorator on a getter: the function \<open>memoizedGetter\<close> (it captures the name and
    the getter).
  A getter is a method that is called without arguments.
\<close>

datatype 'w member =
    LegacyMethod string "'w jsmethod"
  | LegacyGetter string "'w jsmethod"
  | Stage3Method nat
  | Stage3Getter string "'w jsmethod"

datatype ctxKind = KindGetter | KindMethod | KindSetter | KindField | KindAccessor | KindClass

record decoratorContext =
  ctxKind :: ctxKind
  ctxName :: string

text \<open>
  A legacy property descriptor, as far as the decorator reads it: \<open>get\<close> when it is present,
  and \<open>value\<close> when it is a function.
\<close>

record 'w descriptor =
  getFn :: "'w jsmethod option"
  valueFn :: "'w jsmethod option"

datatype 'w decoratorArgs =
    Stage3Args "'w jsmethod" decoratorContext
  | LegacyArgs string "'w descriptor"

definition misuse :: error where
  "misuse = Thrown (VStr ''memoized can only be used on methods or getters'')"

text \<open>
  \<open>memoized(target, contextOrKey, descriptor)\<close>. The first branch is taken when \<open>target\<close> is
  a function (a stage 3 decorator receives the decorated method or getter), the second
  otherwise (a legacy decorator receives the prototype, the key and the descriptor).
\<close>

definition memoized :: "'w decoratorArgs \<Rightarrow> 'w mstate \<Rightarrow> (error + 'w member) \<times> 'w mstate" where
  "memoized a st =
     (case a of
        Stage3Args target context \<Rightarrow>
          (if ctxKind context = KindGetter then (Inr (Stage3Getter (ctxName context) target), st)
           else if ctxKind context = KindMethod then
             (case createMemoizedMethod target (ctxName context) None st of
                (Inl e, st') \<Rightarrow> (Inl e, st')
              | (Inr cid, st') \<Rightarrow> (Inr (Stage3Method cid), st'))
           else (Inl misuse, st))
      | LegacyArgs propertyKey descriptor \<Rightarrow>
          (case getFn descriptor of
             Some g \<Rightarrow> (Inr (LegacyGetter propertyKey g), st)
           | None \<Rightarrow>
               (case valueFn descriptor of
                  None \<Rightarrow> (Inl misuse, st)
                | Some f \<Rightarrow> (Inr (LegacyMethod propertyKey f), st))))"

subsection \<open>Property access and method call on an owning object\<close>

type_synonym 'w proto = "(string \<times> 'w member) list"

datatype propResult = PFn nat | PVal val

definition defineProperty :: "addr \<Rightarrow> string \<Rightarrow> ownProp \<Rightarrow> 'w mstate \<Rightarrow> 'w mstate" where
  "defineProperty ob key p st = st\<lparr>ownProps := (ownProps st)(ob := (ownProps st ob)(key \<mapsto> p))\<rparr>"

text \<open>
  \<open>ob.name\<close>: an own property shadows the prototype; otherwise the member of the prototype
  answers, running the code that \<open>memoized\<close> put there with \<open>this = ob\<close>.
\<close>

definition getProp ::
  "'w proto \<Rightarrow> addr \<Rightarrow> string \<Rightarrow> 'w mstate \<Rightarrow> 'w \<Rightarrow> (error + propResult) \<times> 'w mstate \<times> 'w" where
  "getProp P ob name st w =
     (case ownProps st ob name of
        Some (OwnFn cid) \<Rightarrow> (Inr (PFn cid), st, w)
      | Some (OwnVal v) \<Rightarrow> (Inr (PVal v), st, w)
      | None \<Rightarrow>
          (case map_of P name of
             None \<Rightarrow> (Inr (PVal VUndefined), st, w)
           | Some (LegacyMethod propertyKey value) \<Rightarrow>
               (case createMemoizedMethod value propertyKey (Some ob) st of
                  (Inl e, st1) \<Rightarrow> (Inl e, st1, w)
                | (Inr fn, st1) \<Rightarrow>
                    (Inr (PFn fn), defineProperty ob propertyKey (OwnFn fn) st1, w))
           | Some (LegacyGetter propertyKey get) \<Rightarrow>
               (case get (VRef ob) [] w of
                  (Inl e, w') \<Rightarrow> (Inl e, st, w')
                | (Inr result, w') \<Rightarrow>
                    (Inr (PVal result), defineProperty ob propertyKey (OwnVal result) st, w'))
           | Some (Stage3Method fn) \<Rightarrow> (Inr (PFn fn), st, w)
           | Some (Stage3Getter name' target) \<Rightarrow>
               (case target (VRef ob) [] w of
                  (Inl e, w') \<Rightarrow> (Inl e, st, w')
                | (Inr v, w') \<Rightarrow> (Inr (PVal v), defineProperty ob name' (OwnVal v) st, w'))))"

definition notCallable :: error where
  "notCallable = Thrown (VStr ''TypeError: not a function'')"

text \<open>
  \<open>ob.name(...args)\<close>: the property is read, and when it is a memoized function it is called
  with \<open>this = ob\<close>. Values of getters are not called in this model.
\<close>

definition callMethod ::
  "heap \<Rightarrow> 'w proto \<Rightarrow> addr \<Rightarrow> string \<Rightarrow> val list \<Rightarrow> 'w mstate \<Rightarrow> 'w
     \<Rightarrow> (error + val) \<times> 'w mstate \<times> 'w" where
  "callMethod h P ob name args st w =
     (case getProp P ob name st w of
        (Inl e, st1, w1) \<Rightarrow> (Inl e, st1, w1)
      | (Inr (PVal v), st1, w1) \<Rightarrow> (Inl notCallable, st1, w1)
      | (Inr (PFn fn), st1, w1) \<Rightarrow> callFn h fn (VRef ob) args st1 w1)"

subsection \<open>Sequences of operations on the objects of a class\<close>

datatype op =
    Access addr string
  | Call addr string "val list"
  | ClearMemo addr string
  | ClearAll addr

fun step :: "heap \<Rightarrow> 'w proto \<Rightarrow> op \<Rightarrow> 'w mstate \<times> 'w \<Rightarrow> 'w mstate \<times> 'w" where
  "step h P (Access ob name) (st, w) = (case getProp P ob name st w of (r, st', w') \<Rightarrow> (st', w'))"
| "step h P (Call ob name args) (st, w) =
     (case callMethod h P ob name args st w of (r, st', w') \<Rightarrow> (st', w'))"
| "step h P (ClearMemo ob name) (st, w) =
     (case getProp P ob name st w of
        (Inr (PFn fn), st', w') \<Rightarrow> (clearMemoAt fn st', w')
      | (r, st', w') \<Rightarrow> (st', w'))"
| "step h P (ClearAll ob) (st, w) = (clearAllMemoized ob st, w)"

definition run :: "heap \<Rightarrow> 'w proto \<Rightarrow> op list \<Rightarrow> 'w mstate \<times> 'w \<Rightarrow> 'w mstate \<times> 'w" where
  "run h P ops s = fold (step h P) ops s"

subsection \<open>Classes as the decorators build them\<close>





definition registryOf :: "'w mstate \<Rightarrow> addr \<Rightarrow> (string \<times> nat) list" where
  "registryOf st ob = (case clearFns st ob of None \<Rightarrow> [] | Some r \<Rightarrow> r)"


section \<open>Concrete inputs\<close>

text \<open>The double 1 and the quiet NaN that \<open>0 / 0\<close> produces.\<close>

definition one :: float64 where "one = 0x3FF0000000000000"
definition quietNaN :: float64 where "quietNaN = 0x7FF8000000000000"

text \<open>
  The objects every example heap starts from: the function \<open>Object\<close> at address 1000,
  the function \<open>Object.prototype.toString\<close> at 1001, \<open>Object.prototype\<close> itself at 1002,
  and class instances without fields and without \<open>equals\<close> everywhere else. The
  properties of \<open>Object.prototype\<close> are those three, none of them enumerable. The stack
  has room for 1000 nested calls of the comparator.
\<close>

definition baseObjs :: "addr \<Rightarrow> jsobj" where
  "baseObjs p =
     (if p = 1000 \<or> p = 1001 then \<lparr>kind = Function, equalsFn = None\<rparr>
      else \<lparr>kind = Other [], equalsFn = None\<rparr>)"

definition standardPrototype :: "(string \<times> field) list" where
  "standardPrototype =
     [(''constructor'', Field False (Inr (VRef 1000))),
      (''toString'', Field False (Inr (VRef 1001))),
      (''__proto__'', Field False (Inr (VRef 1002)))]"

definition heapOf :: "(addr \<Rightarrow> jsobj) \<Rightarrow> heap" where
  "heapOf os = \<lparr>objs = os, objectPrototype = standardPrototype, stackRoom = 1000\<rparr>"

definition heap0 :: heap where
  "heap0 = heapOf baseObjs"

text \<open>
  \<open>const a = []; a.push(a); const b = []; b.push(b)\<close>: two arrays, at 0 and at 1, each of
  which contains itself, nested without end.
\<close>

definition heapCyclic :: heap where
  "heapCyclic =
     heapOf (baseObjs(0 := \<lparr>kind = Array [Some (VRef 0)], equalsFn = None\<rparr>,
                      1 := \<lparr>kind = Array [Some (VRef 1)], equalsFn = None\<rparr>))"

text \<open>
  \<open>[ , ]\<close>, an array of length 1 whose only slot is a hole, at 0 and \<open>[1]\<close> at 1.
\<close>

definition heapHoles :: heap where
  "heapHoles =
     heapOf (baseObjs(0 := \<lparr>kind = Array [None], equalsFn = None\<rparr>,
                      1 := \<lparr>kind = Array [Some (VNum one)], equalsFn = None\<rparr>))"

text \<open>
  \<open>class P { equals(o) { throw 'not comparable' } }\<close> with two instances at 0 and 1, and
  \<open>class Q { equals(o) { return o === q1 } }\<close> with instances at 2 and 3 (\<open>q1\<close> is the one
  at 3), next to the plain objects \<open>{x: 1}\<close> at 4 and at 5.
\<close>

definition throwingEquals :: "val \<Rightarrow> error + val" where
  "throwingEquals other = Inl (Thrown (VStr ''not comparable''))"


definition heapThrowing :: heap where
  "heapThrowing =
     heapOf (baseObjs(0 := \<lparr>kind = Other [], equalsFn = Some throwingEquals\<rparr>,
                      1 := \<lparr>kind = Other [], equalsFn = Some throwingEquals\<rparr>))"


text \<open>
  \<open>class Point { constructor(x) { this.x = x } }\<close> with \<open>new Point(1)\<close> at 0 and at 1, the
  plain objects \<open>{x: 1}\<close> at 2 and at 3, the plain object \<open>{constructor: Object}\<close> at 4
  and the plain object \<open>{get x() { throw 'no' }}\<close> at 5.
\<close>

definition heapPoints :: heap where
  "heapPoints =
     heapOf (baseObjs(0 := \<lparr>kind = Other [(''x'', Field True (Inr (VNum one)))], equalsFn = None\<rparr>,
                      1 := \<lparr>kind = Other [(''x'', Field True (Inr (VNum one)))], equalsFn = None\<rparr>,
                      2 := \<lparr>kind = Plain [(''x'', Field True (Inr (VNum one)))], equalsFn = None\<rparr>,
                      3 := \<lparr>kind = Plain [(''x'', Field True (Inr (VNum one)))], equalsFn = None\<rparr>,
                      4 := \<lparr>kind = Plain [(''constructor'', Field True (Inr (VRef 1000)))],
                             equalsFn = None\<rparr>,
                      5 := \<lparr>kind = Plain [(''x'', Field True (Inl (Thrown (VStr ''no''))))],
                             equalsFn = None\<rparr>))"

text \<open>
  The method of the tests, \<open>process(value) { return `processed-${value}` }\<close>, a cell that has
  cached its result for \<open>'test'\<close>, and a method that throws for the argument \<open>'b'\<close>
  together with the cells met when it is called with \<open>'a'\<close>, then \<open>'b'\<close>.
\<close>

definition process :: "unit jsmethod" where
  "process this args w =
     (case args of
        [VStr s] \<Rightarrow> (Inr (VStr (''processed-'' @ s)), w)
      | _ \<Rightarrow> (Inr VUndefined, w))"

definition cellTest :: cell where
  "cellTest = \<lparr>previousArgs = [VStr ''test''], calledOnce = True,
               cachedResult = VStr ''processed-test''\<rparr>"

definition flaky :: "unit jsmethod" where
  "flaky this args w =
     (if args = [VStr ''b''] then (Inl (Thrown (VStr ''failed'')), w)
      else (Inr (VStr ''result-a''), w))"

definition cellA :: cell where
  "cellA = \<lparr>previousArgs = [VStr ''a''], calledOnce = True, cachedResult = VStr ''result-a''\<rparr>"

definition cellAB :: cell where
  "cellAB = \<lparr>previousArgs = [VStr ''b''], calledOnce = True, cachedResult = VStr ''result-a''\<rparr>"

text \<open>
  The cell of \<open>process\<close> after it has been called with the instance of \<open>P\<close> at address 1,
  the class whose \<open>equals\<close> throws.
\<close>

definition cellP :: cell where
  "cellP = \<lparr>previousArgs = [VRef 1], calledOnce = True, cachedResult = VUndefined\<rparr>"

text \<open>
  The cell of the TTL test: a window of 100 ms, \<open>process('test')\<close> computed at time 0.
\<close>

definition ttlCellTest :: ttlCell where
  "ttlCellTest =
     \<lparr>storedArgs = [VStr ''test''], storedResult = Some (VStr ''processed-test''),
      hasRun = True, computedAt = Some 0, ttlMillis = 100\<rparr>"

text \<open>
  A class with the method \<open>who(x) { return this }\<close>, which counts its invocations, decorated
  with the stage 3 decorator and with the legacy decorator, and two calls \<open>who('x')\<close>: the
  first on the instance at address 1, the second on the instance at address 2.
\<close>

definition whoAmI :: "unit jsmethod" where
  "whoAmI this args w = (Inr this, w)"

definition whoContext :: decoratorContext where
  "whoContext = \<lparr>ctxKind = KindMethod, ctxName = ''who''\<rparr>"

definition stage3Decorated :: "(error + (nat \<times> unit) member) \<times> (nat \<times> unit) mstate" where
  "stage3Decorated = memoized (Stage3Args (counted whoAmI) whoContext) initState"

definition stage3Class :: "(nat \<times> unit) proto" where
  "stage3Class = [(''who'', Stage3Method 0)]"

definition stage3First :: "(error + val) \<times> (nat \<times> unit) mstate \<times> (nat \<times> unit)" where
  "stage3First = callMethod heap0 stage3Class 1 ''who'' [VStr ''x''] (snd stage3Decorated) (0, ())"

definition stage3Second :: "(error + val) \<times> (nat \<times> unit) mstate \<times> (nat \<times> unit)" where
  "stage3Second =
     callMethod heap0 stage3Class 2 ''who'' [VStr ''x''] (fst (snd stage3First)) (snd (snd stage3First))"

definition whoDescriptor :: "(nat \<times> unit) descriptor" where
  "whoDescriptor = \<lparr>getFn = None, valueFn = Some (counted whoAmI)\<rparr>"

definition legacyWhoClass :: "(nat \<times> unit) proto" where
  "legacyWhoClass = [(''who'', LegacyMethod ''who'' (counted whoAmI))]"

definition legacyFirst :: "(error + val) \<times> (nat \<times> unit) mstate \<times> (nat \<times> unit)" where
  "legacyFirst = callMethod heap0 legacyWhoClass 1 ''who'' [VStr ''x''] initState (0, ())"

definition legacySecond :: "(error + val) \<times> (nat \<times> unit) mstate \<times> (nat \<times> unit)" where
  "legacySecond =
     callMethod heap0 legacyWhoClass 2 ''who'' [VStr ''x''] (fst (snd legacyFirst)) (snd (snd legacyFirst))"








text \<open>
  A class with a method named \<open>__proto__\<close> under the legacy decorator, called once on the
  instance at address 1.
\<close>

definition protoClass :: "(nat \<times> unit) proto" where
  "protoClass = [(''__proto__'', LegacyMethod ''__proto__'' (counted process))]"

definition calledProto :: "(nat \<times> unit) mstate \<times> (nat \<times> unit)" where
  "calledProto = run heap0 protoClass [Call 1 ''__proto__'' [VStr ''test'']] (initState, (0, ()))"

section \<open>Properties of the equality engine\<close>

lemma deepEqual_guard: "depth \<le> 0 \<Longrightarrow> deepEqual h a b depth = Inr (VBool False)"
  by (simp add: deepEqual.simps)

lemma deepEqual_identical: "0 < depth \<Longrightarrow> strictEq a b \<Longrightarrow> deepEqual h a b depth = Inr (VBool True)"
  by (simp add: deepEqual.simps)



lemma deepEqual_not_refs:
  assumes "\<not> (\<exists>p q. a = VRef p \<and> b = VRef q)"
  shows "deepEqual h a b depth = Inr (VBool (0 < depth \<and> strictEq a b))"
proof (cases "depth \<le> 0 \<or> strictEq a b")
  case True
  then show ?thesis by (auto simp: deepEqual.simps)
next
  case False
  show ?thesis
  proof (cases a)
    case (VRef p)
    with assms False show ?thesis
      by (cases b) (simp_all add: deepEqual.simps looseNull_def)
  qed (use False in \<open>simp_all add: deepEqual.simps looseNull_def\<close>)
qed

text \<open>The comparison of two distinct objects, with its recursive calls written as \<open>nestedCall\<close>.\<close>

lemma deepEqual_refs:
  assumes "0 < depth" "p \<noteq> q"
  shows "deepEqual h (VRef p) (VRef q) depth =
     (if (kind (objs h p) = Function) \<noteq> (kind (objs h q) = Function) then Inr (VBool False)
      else
          (let ka = kind (objs h p); kb = kind (objs h q) in
           if is_DateObj ka \<and> is_DateObj kb then Inr (VBool (numEq (getTime ka) (getTime kb)))
           else if is_RegExpObj ka \<and> is_RegExpObj kb then Inr (VBool (toString ka = toString kb))
           else if is_Array ka \<and> is_Array kb then
             (if length (elems ka) \<noteq> length (elems kb) then Inr (VBool False)
              else if list_all (\<lambda>(i, item). isPrimitive h item) (present (elems ka)) then
                Inr (VBool (list_all (\<lambda>(i, v). strictEq v (elemAt (elems kb) i))
                                     (present (elems ka))))
              else everyE (\<lambda>(i, v). nestedCall h depth v (elemAt (elems kb) i)) (present (elems ka)))
           else if is_MapObj ka \<and> is_MapObj kb then
             (if length (entries ka) \<noteq> length (entries kb) then Inr (VBool False)
              else everyE (\<lambda>(key, v).
                             if \<not> mapHas (entries kb) key then Inr (VBool False)
                             else nestedCall h depth v (mapGet (entries kb) key))
                          (entries ka))
           else if is_SetObj ka \<and> is_SetObj kb then
             (if length (members ka) \<noteq> length (members kb) then Inr (VBool False)
              else everyE (\<lambda>item. someE (\<lambda>bItem. nestedCall h depth item bItem) (members kb))
                          (members ka))
           else if is_Plain ka \<and> is_Plain kb then
             (if length (objectKeys (plainFields ka)) \<noteq> length (objectKeys (plainFields kb))
              then Inr (VBool False)
              else everyE (\<lambda>key.
                             case propRead h (plainFields ka) key of
                               Inl e \<Rightarrow> Inl e
                             | Inr x \<Rightarrow>
                                 (case propRead h (plainFields kb) key of
                                    Inl e \<Rightarrow> Inl e
                                  | Inr y \<Rightarrow> nestedCall h depth x y))
                          (objectKeys (plainFields ka)))
           else (case equalsFn (objs h p) of
                   Some equals \<Rightarrow> equals (VRef q)
                 | None \<Rightarrow> Inr (VBool False))))"
  using assms unfolding nestedCall_def
  by (subst deepEqual.simps) (simp add: looseNull_def Let_def)


lemma minusOne_exact: "0 < depth \<Longrightarrow> depth \<le> 2 ^ 53 \<Longrightarrow> minusOne depth = depth - 1"
  unfolding minusOne_def roundDouble_def by (simp only: if_P abs_le_iff) auto

lemma bitLength_range: "2 ^ k \<le> n \<Longrightarrow> n < 2 ^ Suc k \<Longrightarrow> bitLength n = Suc k"
proof (induction k arbitrary: n)
  case 0
  then have "n = 1" by simp
  then show ?case by (simp add: bitLength.simps [of "Suc 0"] bitLength.simps [of 0])
next
  case (Suc k)
  then have "2 ^ k \<le> n div 2" "n div 2 < 2 ^ Suc k" by auto
  from Suc.IH [OF this] Suc.prems show ?case
    by (subst bitLength.simps) auto
qed

lemma minusOne_rounds_example: "minusOne (2 ^ 54) = 2 ^ 54"
proof -
  have "bitLength (nat \<bar>2 ^ 54 - 1 :: int\<bar>) = Suc 53"
    by (rule bitLength_range) simp_all
  then show ?thesis
    by (simp add: minusOne_def roundDouble_def Let_def)
qed

lemma propRead_stackRoom [simp]:
  "propRead (h\<lparr>stackRoom := k\<rparr>) fs key = propRead h fs key"
  by (simp add: propRead_def split: option.splits)

lemma wellBehaved_stackRoom [simp]:
  "equalsWellBehaved (h\<lparr>stackRoom := k\<rparr>) = equalsWellBehaved h"
  "readsWellBehaved (h\<lparr>stackRoom := k\<rparr>) = readsWellBehaved h"
  by (simp_all add: equalsWellBehaved_def readsWellBehaved_def)


lemma deepEqual_class_instances:
  assumes "p \<noteq> q"
    and "\<not> builtinShape (kind (objs h p))" and "\<not> builtinShape (kind (objs h q))"
    and "\<not> (is_Plain (kind (objs h p)) \<and> is_Plain (kind (objs h q)))"
    and "equalsFn (objs h p) = None"
  shows "deepEqual h (VRef p) (VRef q) depth = Inr (VBool False)"
proof (cases "depth \<le> 0")
  case True
  then show ?thesis by (simp add: deepEqual_guard)
next
  case False
  then have "0 < depth" by simp
  from assms(2-) show ?thesis
    unfolding deepEqual_refs [OF \<open>0 < depth\<close> assms(1)]
    by (cases "is_Plain (kind (objs h p))") (simp_all add: Let_def builtinShape_def)
qed


subsection \<open>Reflexivity\<close>

lemma strictEq_self: "strictEq x x \<longleftrightarrow> \<not> isNaNValue x"
  by (cases x) (simp_all add: numEq_def)

lemma deepEqual_self:
  assumes "0 < depth"
  shows "deepEqual h x x depth = Inr (VBool (\<not> isNaNValue x))"
proof (cases "isNaNValue x")
  case True
  then have "\<not> (\<exists>p q. x = VRef p \<and> x = VRef q)" by (cases x) simp_all
  from deepEqual_not_refs [OF this] True show ?thesis
    by (simp add: strictEq_self)
next
  case False
  with assms show ?thesis
    by (simp add: deepEqual_identical strictEq_self)
qed

text \<open>
  Claim C8, as amended. Comparing a value with itself gives \<open>true\<close> at the default depth and at
  every depth of at least 1, however deeply the value nests and even when it is cyclic: the
  identity test answers before anything is traversed, so depth exhaustion does not occur.
  The one exception is the number NaN, for which the comparison gives \<open>false\<close>.
\<close>

theorem deepEqual_reflexive_except_NaN:
  "deepEqualDefault h x x = Inr (VBool (\<not> isNaNValue x)) \<and>
   (0 < depth \<longrightarrow> deepEqual h x x depth = Inr (VBool (\<not> isNaNValue x)))"
  by (simp add: deepEqualDefault_def deepEqual_self)

theorem deepEqual_reflexive_except_NaN_witness:
  "deepEqualDefault heapCyclic (VRef 0) (VRef 0) = Inr (VBool True) \<and>
   (0 < (1::int) \<and> deepEqual heapCyclic (VRef 0) (VRef 0) 1 = Inr (VBool True))"
  using deepEqual_reflexive_except_NaN [of heapCyclic "VRef 0" 1] by simp

text \<open>
  Claim C8 as stated fails: \<open>deepEqual(NaN, NaN)\<close> is \<open>false\<close> at the default depth, and NaN
  does not nest at all.
\<close>

theorem deepEqual_NaN_counterexample:
  "deepEqualDefault heap0 (VNum quietNaN) (VNum quietNaN) = Inr (VBool False)"
  by code_simp

subsection \<open>When the comparator returns a boolean\<close>






text \<open>
  The other three provisos are needed as well. Reading a property runs its getter, and what
  the getter throws leaves the comparator: \<open>deepEqual({get x() { throw 'no' }}, {x: 1})\<close>.
\<close>

lemma deepEqual_accessor_throws_example:
  "deepEqualDefault heapPoints (VRef 5) (VRef 2) = Inl (Thrown (VStr ''no''))"
  by code_simp

text \<open>
  The two arrays that contain themselves are compared level by level until the depth is used
  up. When the depth is larger than the room on the stack, the stack is used up first and
  the comparison ends with a \<open>RangeError\<close>, for every depth up to \<open>2 ^ 53\<close> and every stack.
\<close>

lemma cyclic_arrays_unfold:
  assumes "0 < depth"
  shows "deepEqual (heapCyclic\<lparr>stackRoom := n\<rparr>) (VRef 0) (VRef 1) depth =
           (case nestedCall (heapCyclic\<lparr>stackRoom := n\<rparr>) depth (VRef 0) (VRef 1) of
              Inl e \<Rightarrow> Inl e
            | Inr v \<Rightarrow> Inr (VBool (toBoolean v)))"
proof -
  have ne: "(0::nat) \<noteq> 1" by simp
  show ?thesis
    unfolding deepEqual_refs [OF assms ne]
    by (simp add: heapCyclic_def heapOf_def baseObjs_def present_def elemAt_def isPrimitive_def
                  Let_def split: sum.splits)
qed

lemma deepEqual_stack_exhausted:
  "0 < depth \<Longrightarrow> depth \<le> 2 ^ 53 \<Longrightarrow> int n < depth \<Longrightarrow>
   deepEqual (heapCyclic\<lparr>stackRoom := n\<rparr>) (VRef 0) (VRef 1) depth = Inl rangeError"
proof (induction n arbitrary: depth)
  case 0
  then show ?case by (subst cyclic_arrays_unfold) (simp_all add: nestedCall_def)
next
  case (Suc n)
  then have "minusOne depth = depth - 1" by (simp add: minusOne_exact)
  moreover from Suc.prems have "0 < depth - 1" "depth - 1 \<le> 2 ^ 53" "int n < depth - 1"
    by simp_all
  ultimately show ?case
    using Suc.prems(1) Suc.IH [of "depth - 1"]
    by (subst cyclic_arrays_unfold) (simp_all add: nestedCall_def)
qed

lemma deepEqual_stack_exhausted_example:
  "deepEqual heapCyclic (VRef 0) (VRef 1) 2000 = Inl rangeError"
proof -
  have "heapCyclic = heapCyclic\<lparr>stackRoom := 1000\<rparr>"
    by (simp add: heapCyclic_def heapOf_def)
  with deepEqual_stack_exhausted [of 2000 1000] show ?thesis by simp
qed

text \<open>
  Beyond \<open>2 ^ 53\<close> the subtraction \<open>depth - 1\<close> is rounded: at \<open>2 ^ 54\<close> the depth does not
  decrease at all and the comparison of the two arrays ends with a \<open>RangeError\<close> whatever
  room the stack has.
\<close>

lemma deepEqual_depth_not_decreasing:
  "deepEqual (heapCyclic\<lparr>stackRoom := n\<rparr>) (VRef 0) (VRef 1) (2 ^ 54) = Inl rangeError"
proof (induction n)
  case 0
  show ?case by (subst cyclic_arrays_unfold) (simp_all add: nestedCall_def)
next
  case (Suc n)
  have "nestedCall (heapCyclic\<lparr>stackRoom := Suc n\<rparr>) (2 ^ 54) (VRef 0) (VRef 1) =
          deepEqual (heapCyclic\<lparr>stackRoom := n\<rparr>) (VRef 0) (VRef 1) (2 ^ 54)"
    unfolding nestedCall_def minusOne_rounds_example by simp
  with Suc show ?case
    by (subst cyclic_arrays_unfold) simp_all
qed

text \<open>Within these bounds the depth guard ends the comparison of the two arrays: they are unequal.\<close>

lemma deepEqual_cyclic_arrays_example:
  "deepEqualDefault heapCyclic (VRef 0) (VRef 1) = Inr (VBool False)"
  by code_simp

subsection \<open>Class instances and plain objects\<close>

text \<open>
  Claim C10. Two distinct objects that are neither arrays, Maps, Sets, Dates nor RegExps, that
  are not both plain (direct prototype \<open>Object.prototype\<close>), and of which the first has no
  \<open>equals\<close> function, are unequal at every depth, whatever their fields are: instances of a
  class without \<open>equals\<close> are equal to themselves only.
\<close>

theorem deepEqual_class_instances_by_identity:
  assumes "p \<noteq> q"
    and "\<not> builtinShape (kind (objs h p))" and "\<not> builtinShape (kind (objs h q))"
    and "\<not> (is_Plain (kind (objs h p)) \<and> is_Plain (kind (objs h q)))"
    and "equalsFn (objs h p) = None"
  shows "deepEqual h (VRef p) (VRef q) depth = Inr (VBool False) \<and>
         deepEqualDefault h (VRef p) (VRef q) = Inr (VBool False)"
  using assms by (simp add: deepEqualDefault_def deepEqual_class_instances)

theorem deepEqual_class_instances_by_identity_witness:
  "(0::nat) \<noteq> 1 \<and> \<not> builtinShape (kind (objs heapPoints 0)) \<and>
   \<not> builtinShape (kind (objs heapPoints 1)) \<and>
   \<not> (is_Plain (kind (objs heapPoints 0)) \<and> is_Plain (kind (objs heapPoints 1))) \<and>
   equalsFn (objs heapPoints 0) = None \<and>
   ownFields (kind (objs heapPoints 0)) = ownFields (kind (objs heapPoints 1)) \<and>
   deepEqual heapPoints (VRef 0) (VRef 1) 100 = Inr (VBool False) \<and>
   deepEqualDefault heapPoints (VRef 0) (VRef 1) = Inr (VBool False)"
  using deepEqual_class_instances_by_identity [of 0 1 heapPoints 100]
  by (simp add: heapPoints_def heapOf_def baseObjs_def builtinShape_def)

text \<open>
  For contrast: the plain objects with the same field are equal. A plain object is read
  through its prototype, so \<open>{constructor: Object}\<close> equals \<open>{x: 1}\<close>: both have one key,
  and under the key \<open>constructor\<close> the second object answers with the function \<open>Object\<close>
  that it inherits.
\<close>

lemma deepEqual_plain_objects_example:
  "deepEqualDefault heapPoints (VRef 2) (VRef 3) = Inr (VBool True)"
  by code_simp

lemma deepEqual_inherited_property_example:
  "deepEqualDefault heapPoints (VRef 4) (VRef 2) = Inr (VBool True)"
  by code_simp

text \<open>
  \<open>every\<close> does not visit the holes of an array, so an array with a hole equals any array
  of the same length that agrees with it on the other slots: \<open>deepEqual([ , ], [1])\<close>.
\<close>

lemma deepEqual_array_hole_example:
  "deepEqualDefault heapHoles (VRef 0) (VRef 1) = Inr (VBool True)"
  by code_simp

section \<open>Properties of the cache cell\<close>

lemma everyE_True_iff: "everyE f xs = Inr (VBool True) \<longleftrightarrow> (\<forall>x\<in>set xs. holds (f x))"
proof (induction xs)
  case Nil
  show ?case by simp
next
  case (Cons x xs)
  show ?case
  proof (cases "f x")
    case (Inl e)
    then show ?thesis by simp
  next
    case (Inr v)
    with Cons show ?thesis by simp
  qed
qed

lemma everyE_False_iff:
  "everyE f xs = Inr (VBool False) \<longleftrightarrow>
     (\<exists>k<length xs. answersNo (f (xs ! k)) \<and> (\<forall>j<k. holds (f (xs ! j))))"
proof (induction xs)
  case Nil
  show ?case by simp
next
  case (Cons x xs)
  let ?R = "\<lambda>ys. \<exists>k<length ys. answersNo (f (ys ! k)) \<and> (\<forall>j<k. holds (f (ys ! j)))"
  have step: "?R (x # xs) \<longleftrightarrow> answersNo (f x) \<or> (holds (f x) \<and> ?R xs)"
  proof
    assume "?R (x # xs)"
    then obtain k where k: "k < length (x # xs)" "answersNo (f ((x # xs) ! k))"
      "\<forall>j<k. holds (f ((x # xs) ! j))" by blast
    show "answersNo (f x) \<or> (holds (f x) \<and> ?R xs)"
    proof (cases k)
      case 0
      with k show ?thesis by simp
    next
      case (Suc m)
      with k have "holds (f x)" by auto
      moreover from k Suc have "m < length xs" "answersNo (f (xs ! m))" by simp_all
      moreover from k Suc have "\<forall>j<m. holds (f (xs ! j))" by auto
      ultimately show ?thesis by blast
    qed
  next
    assume "answersNo (f x) \<or> (holds (f x) \<and> ?R xs)"
    then show "?R (x # xs)"
    proof
      assume "answersNo (f x)"
      then have "0 < length (x # xs) \<and> answersNo (f ((x # xs) ! 0)) \<and>
                 (\<forall>j<0. holds (f ((x # xs) ! j)))" by simp
      then show ?thesis by blast
    next
      assume a: "holds (f x) \<and> ?R xs"
      then obtain k where k: "k < length xs" "answersNo (f (xs ! k))" "\<forall>j<k. holds (f (xs ! j))"
        by blast
      have "\<forall>j<Suc k. holds (f ((x # xs) ! j))"
      proof (intro allI impI)
        fix j assume "j < Suc k"
        with a k show "holds (f ((x # xs) ! j))" by (cases j) auto
      qed
      with k have "Suc k < length (x # xs) \<and> answersNo (f ((x # xs) ! Suc k)) \<and>
                   (\<forall>j<Suc k. holds (f ((x # xs) ! j)))" by simp
      then show ?thesis by blast
    qed
  qed
  show ?case
  proof (cases "f x")
    case (Inl e)
    then show ?thesis unfolding step by simp
  next
    case (Inr v)
    with Cons show ?thesis unfolding step by simp
  qed
qed

lemma everyE_Inl_iff:
  "everyE f xs = Inl e \<longleftrightarrow>
     (\<exists>k<length xs. f (xs ! k) = Inl e \<and> (\<forall>j<k. holds (f (xs ! j))))"
proof (induction xs)
  case Nil
  show ?case by simp
next
  case (Cons x xs)
  let ?R = "\<lambda>ys. \<exists>k<length ys. f (ys ! k) = Inl e \<and> (\<forall>j<k. holds (f (ys ! j)))"
  have step: "?R (x # xs) \<longleftrightarrow> f x = Inl e \<or> (holds (f x) \<and> ?R xs)"
  proof
    assume "?R (x # xs)"
    then obtain k where k: "k < length (x # xs)" "f ((x # xs) ! k) = Inl e"
      "\<forall>j<k. holds (f ((x # xs) ! j))" by blast
    show "f x = Inl e \<or> (holds (f x) \<and> ?R xs)"
    proof (cases k)
      case 0
      with k show ?thesis by simp
    next
      case (Suc m)
      with k have "holds (f x)" by auto
      moreover from k Suc have "m < length xs" "f (xs ! m) = Inl e" by simp_all
      moreover from k Suc have "\<forall>j<m. holds (f (xs ! j))" by auto
      ultimately show ?thesis by blast
    qed
  next
    assume "f x = Inl e \<or> (holds (f x) \<and> ?R xs)"
    then show "?R (x # xs)"
    proof
      assume "f x = Inl e"
      then have "0 < length (x # xs) \<and> f ((x # xs) ! 0) = Inl e \<and>
                 (\<forall>j<0. holds (f ((x # xs) ! j)))" by simp
      then show ?thesis by blast
    next
      assume a: "holds (f x) \<and> ?R xs"
      then obtain k where k: "k < length xs" "f (xs ! k) = Inl e" "\<forall>j<k. holds (f (xs ! j))"
        by blast
      have "\<forall>j<Suc k. holds (f ((x # xs) ! j))"
      proof (intro allI impI)
        fix j assume "j < Suc k"
        with a k show "holds (f ((x # xs) ! j))" by (cases j) auto
      qed
      with k have "Suc k < length (x # xs) \<and> f ((x # xs) ! Suc k) = Inl e \<and>
                   (\<forall>j<Suc k. holds (f ((x # xs) ! j)))" by simp
      then show ?thesis by blast
    qed
  qed
  show ?case
  proof (cases "f x")
    case (Inl e')
    then show ?thesis unfolding step by auto
  next
    case (Inr v)
    with Cons show ?thesis unfolding step by simp
  qed
qed

lemma everyE_cases: "(\<exists>e. everyE f xs = Inl e) \<or> (\<exists>r. everyE f xs = Inr (VBool r))"
  by (induction xs) (auto split: sum.splits)

lemma isSame_True_iff: "isSame h c args = Inr True \<longleftrightarrow> hitCondition h c args"
proof -
  let ?E = "everyE (\<lambda>i. deepEqualDefault h (args ! i) (idx (previousArgs c) i)) [0 ..< length args]"
  from everyE_cases [of _ "[0 ..< length args]"]
  have "(case ?E of Inl e \<Rightarrow> Inl e | Inr v \<Rightarrow> Inr (toBoolean v)) = Inr True \<longleftrightarrow> ?E = Inr (VBool True)"
    by (metis (mono_tags, lifting) old.sum.simps(5) old.sum.simps(6) sum.inject(2) sum.simps(4) toBoolean.simps(3))
  then show ?thesis
    by (auto simp: isSame_def hitCondition_def everyE_True_iff idx_def)
qed

lemma isSame_False_iff: "isSame h c args = Inr False \<longleftrightarrow> missCondition h c args"
proof -
  let ?E = "everyE (\<lambda>i. deepEqualDefault h (args ! i) (idx (previousArgs c) i)) [0 ..< length args]"
  from everyE_cases [of _ "[0 ..< length args]"]
  have "(case ?E of Inl e \<Rightarrow> Inl e | Inr v \<Rightarrow> Inr (toBoolean v)) = Inr False \<longleftrightarrow> ?E = Inr (VBool False)"
    by (metis (mono_tags, lifting) old.sum.simps(5) old.sum.simps(6) sum.inject(2) sum.simps(4) toBoolean.simps(3))
  then show ?thesis
    by (auto simp: isSame_def missCondition_def everyE_False_iff idx_def)
qed


lemma isSame_Inl_iff: "isSame h c args = Inl e \<longleftrightarrow> throwCondition h c args e"
proof -
  let ?E = "everyE (\<lambda>i. deepEqualDefault h (args ! i) (idx (previousArgs c) i)) [0 ..< length args]"
  have "(case ?E of Inl e \<Rightarrow> Inl e | Inr v \<Rightarrow> Inr (toBoolean v)) = (Inl e :: error + bool)
          \<longleftrightarrow> ?E = Inl e"
    by (cases ?E) simp_all
  then show ?thesis
    by (auto simp: isSame_def throwCondition_def everyE_Inl_iff idx_def)
qed

lemma isSame_cases:
  "hitCondition h c args \<or> missCondition h c args \<or> (\<exists>e. throwCondition h c args e)"
proof (cases "isSame h c args")
  case (Inl e)
  then show ?thesis by (auto simp: isSame_Inl_iff)
next
  case (Inr r)
  then show ?thesis by (cases r) (simp_all add: isSame_True_iff isSame_False_iff)
qed

lemma memoizedFn_hit:
  "isSame h c args = Inr True \<Longrightarrow> memoizedFn h f this c args w = (Inr (cachedResult c), c, w)"
  by (simp add: memoizedFn_def)

lemma memoizedFn_miss:
  "isSame h c args = Inr False \<Longrightarrow>
   memoizedFn h f this c args w =
     (case f this args w of
        (Inl e, w') \<Rightarrow> (Inl e, c\<lparr>previousArgs := args\<rparr>, w')
      | (Inr r, w') \<Rightarrow> (Inr r, \<lparr>previousArgs = args, calledOnce = True, cachedResult = r\<rparr>, w'))"
  by (simp add: memoizedFn_def Let_def split: prod.splits sum.splits)

lemma memoizedFn_comparison_throws:
  "isSame h c args = Inl e \<Longrightarrow> memoizedFn h f this c args w = (Inl e, c, w)"
  by (simp add: memoizedFn_def)

lemma holds_or_answersNo: "r = Inr v \<Longrightarrow> answersNo r \<longleftrightarrow> \<not> holds r"
  by simp

lemma miss_iff_not_hit:
  assumes "\<forall>i<length args. \<exists>v. deepEqualDefault h (args ! i) (previousArgs c ! i) = Inr v"
  shows "missCondition h c args \<longleftrightarrow> \<not> hitCondition h c args"
proof
  assume "missCondition h c args"
  then show "\<not> hitCondition h c args"
    unfolding missCondition_def hitCondition_def using assms
    by (metis holds_or_answersNo)
next
  let ?P = "\<lambda>i. holds (deepEqualDefault h (args ! i) (previousArgs c ! i))"
  assume nh: "\<not> hitCondition h c args"
  show "missCondition h c args"
  proof (cases "calledOnce c \<and> length args = length (previousArgs c)")
    case False
    then show ?thesis by (auto simp: missCondition_def)
  next
    case True
    with nh obtain i where i: "i < length args" "\<not> ?P i"
      by (auto simp: hitCondition_def)
    define k where "k = (LEAST i. i < length args \<and> \<not> ?P i)"
    from i have k: "k < length args \<and> \<not> ?P k"
      unfolding k_def by (metis (mono_tags, lifting) LeastI)
    have "?P j" if "j < k" for j
    proof (rule ccontr)
      assume "\<not> ?P j"
      with that k have "j < length args \<and> \<not> ?P j" by simp
      then have "k \<le> j" unfolding k_def by (rule Least_le)
      with that show False by simp
    qed
    moreover from k assms have "answersNo (deepEqualDefault h (args ! k) (previousArgs c ! k))"
      by (metis holds_or_answersNo)
    ultimately show ?thesis
      using k by (auto simp: missCondition_def)
  qed
qed

text \<open>
  Claim C1, as amended, for a wrapped method that does not call the memoized function or its
  \<open>clearMemo\<close> while it runs, and that counts its invocations. When the hit condition
  holds the call returns the cached result, the cell is unchanged and the method has not run
  (the counter and the world are unchanged). When the miss condition holds the method runs
  exactly once (the counter goes up by one) and, when it returns a value, that value is
  returned and stored together with the arguments and \<open>calledOnce = true\<close>. When the
  comparison of the arguments throws, what it throws reaches the caller, the cell is
  unchanged and the method has not run. Every call is of one of these three kinds, and the
  miss condition is the negation of the hit condition as soon as the comparisons of the
  arguments return.
\<close>

theorem memoizedFn_hit_or_miss:
  "(hitCondition h c args \<longrightarrow>
      memoizedFn h (counted f) this c args (n, w) = (Inr (cachedResult c), c, (n, w))) \<and>
   (missCondition h c args \<longrightarrow>
      fst (snd (snd (memoizedFn h (counted f) this c args (n, w)))) = Suc n \<and>
      (\<forall>v w'. f this args w = (Inr v, w') \<longrightarrow>
         memoizedFn h (counted f) this c args (n, w) =
           (Inr v, \<lparr>previousArgs = args, calledOnce = True, cachedResult = v\<rparr>, (Suc n, w')))) \<and>
   (\<forall>e. throwCondition h c args e \<longrightarrow>
      memoizedFn h (counted f) this c args (n, w) = (Inl e, c, (n, w))) \<and>
   (hitCondition h c args \<or> missCondition h c args \<or> (\<exists>e. throwCondition h c args e)) \<and>
   ((\<forall>i<length args. \<exists>v. deepEqualDefault h (args ! i) (previousArgs c ! i) = Inr v) \<longrightarrow>
      (missCondition h c args \<longleftrightarrow> \<not> hitCondition h c args))"
proof (intro conjI impI allI)
  assume "hitCondition h c args"
  then show "memoizedFn h (counted f) this c args (n, w) = (Inr (cachedResult c), c, (n, w))"
    by (simp add: memoizedFn_hit isSame_True_iff)
next
  assume "missCondition h c args"
  then have miss: "isSame h c args = Inr False" by (simp add: isSame_False_iff)
  show "fst (snd (snd (memoizedFn h (counted f) this c args (n, w)))) = Suc n"
    by (simp add: memoizedFn_miss [OF miss] counted_def split: prod.splits sum.splits)
  fix v w'
  assume "f this args w = (Inr v, w')"
  then show "memoizedFn h (counted f) this c args (n, w) =
           (Inr v, \<lparr>previousArgs = args, calledOnce = True, cachedResult = v\<rparr>, (Suc n, w'))"
    by (simp add: memoizedFn_miss [OF miss] counted_def)
next
  fix e
  assume "throwCondition h c args e"
  then show "memoizedFn h (counted f) this c args (n, w) = (Inl e, c, (n, w))"
    by (simp add: memoizedFn_comparison_throws isSame_Inl_iff)
next
  show "hitCondition h c args \<or> missCondition h c args \<or> (\<exists>e. throwCondition h c args e)"
    by (rule isSame_cases)
next
  assume "\<forall>i<length args. \<exists>v. deepEqualDefault h (args ! i) (previousArgs c ! i) = Inr v"
  then show "missCondition h c args \<longleftrightarrow> \<not> hitCondition h c args"
    by (rule miss_iff_not_hit)
qed

lemma hit_example: "hitCondition heap0 cellTest [VStr ''test'']"
  by (simp add: hitCondition_def cellTest_def deepEqualDefault_def deepEqual_identical)

lemma miss_example: "missCondition heap0 cellTest [VStr ''other'']"
  by (simp add: missCondition_def cellTest_def deepEqualDefault_def deepEqual_not_refs)

lemma isSame_throws_example:
  "isSame heapThrowing cellP [VRef 0] = Inl (Thrown (VStr ''not comparable''))"
  by code_simp

lemma throw_example: "throwCondition heapThrowing cellP [VRef 0] (Thrown (VStr ''not comparable''))"
  using isSame_throws_example by (simp add: isSame_Inl_iff)

theorem memoizedFn_hit_or_miss_witness:
  "hitCondition heap0 cellTest [VStr ''test''] \<and>
   memoizedFn heap0 (counted process) (VRef 0) cellTest [VStr ''test''] (1, ()) =
     (Inr (VStr ''processed-test''), cellTest, (1, ())) \<and>
   missCondition heap0 cellTest [VStr ''other''] \<and>
   process (VRef 0) [VStr ''other''] () = (Inr (VStr ''processed-other''), ()) \<and>
   memoizedFn heap0 (counted process) (VRef 0) cellTest [VStr ''other''] (1, ()) =
     (Inr (VStr ''processed-other''),
      \<lparr>previousArgs = [VStr ''other''], calledOnce = True, cachedResult = VStr ''processed-other''\<rparr>,
      (2, ())) \<and>
   \<not> hitCondition heap0 cellTest [VStr ''other''] \<and>
   throwCondition heapThrowing cellP [VRef 0] (Thrown (VStr ''not comparable'')) \<and>
   memoizedFn heapThrowing (counted process) (VRef 0) cellP [VRef 0] (1, ()) =
     (Inl (Thrown (VStr ''not comparable'')), cellP, (1, ()))"
proof -
  have p: "process (VRef 0) [VStr ''other''] () = (Inr (VStr ''processed-other''), ())"
    by (simp add: process_def)
  have nt: "\<forall>i<length [VStr ''other'']. \<exists>v.
       deepEqualDefault heap0 ([VStr ''other''] ! i) (previousArgs cellTest ! i) = Inr v"
    by (simp add: cellTest_def deepEqualDefault_def deepEqual_not_refs)
  from memoizedFn_hit_or_miss [of heap0 cellTest "[VStr ''test'']" process "VRef 0" 1 "()"]
       hit_example
  have hit: "memoizedFn heap0 (counted process) (VRef 0) cellTest [VStr ''test''] (1, ()) =
     (Inr (VStr ''processed-test''), cellTest, (1, ()))"
    by (simp add: cellTest_def)
  from memoizedFn_hit_or_miss [of heap0 cellTest "[VStr ''other'']" process "VRef 0" 1 "()"]
       miss_example p nt
  have miss: "memoizedFn heap0 (counted process) (VRef 0) cellTest [VStr ''other''] (1, ()) =
     (Inr (VStr ''processed-other''),
      \<lparr>previousArgs = [VStr ''other''], calledOnce = True, cachedResult = VStr ''processed-other''\<rparr>,
      (2, ())) \<and>
     \<not> hitCondition heap0 cellTest [VStr ''other'']"
    by simp
  from memoizedFn_hit_or_miss [of heapThrowing cellP "[VRef 0]" process "VRef 0" 1 "()"]
       throw_example
  have thr: "memoizedFn heapThrowing (counted process) (VRef 0) cellP [VRef 0] (1, ()) =
     (Inl (Thrown (VStr ''not comparable'')), cellP, (1, ()))"
    by blast
  from hit miss thr hit_example miss_example throw_example p show ?thesis by simp
qed

text \<open>
  Claim C1 as stated fails: a call that is not a hit need not run the method. The first call
  passes an instance of the class whose \<open>equals\<close> throws and is computed. The second call
  passes the other instance: it is not a hit, the comparison throws, and the call ends with
  that exception. The method has not run (the counter stays at 1) and nothing is returned or
  stored.
\<close>

theorem memoizedFn_comparison_throws_counterexample:
  "memoizedFn heapThrowing (counted process) (VRef 0) newCell [VRef 1] (0, ()) =
     (Inr VUndefined, cellP, (1, ())) \<and>
   \<not> hitCondition heapThrowing cellP [VRef 0] \<and>
   memoizedFn heapThrowing (counted process) (VRef 0) cellP [VRef 0] (1, ()) =
     (Inl (Thrown (VStr ''not comparable'')), cellP, (1, ()))"
proof -
  have first: "memoizedFn heapThrowing (counted process) (VRef 0) newCell [VRef 1] (0, ()) =
     (Inr VUndefined, cellP, (1, ()))"
    by code_simp
  have "isSame heapThrowing cellP [VRef 0] = Inl (Thrown (VStr ''not comparable''))"
    by code_simp
  with first show ?thesis
    by (simp add: memoizedFn_comparison_throws flip: isSame_True_iff)
qed

lemma memoizedFn_failure:
  assumes "missCondition h c args" and "f this args w = (Inl e, w')"
  shows "memoizedFn h f this c args w = (Inl e, c\<lparr>previousArgs := args\<rparr>, w')"
  using assms by (simp add: memoizedFn_miss isSame_False_iff)

text \<open>
  Claim C3 does not hold of the code. \<open>previousArgs = [...args]\<close> is assigned before the
  original method is called, so a call that throws leaves the new arguments in the cell,
  next to the result of the call before it. Here \<open>'a'\<close> is computed, \<open>'b'\<close> throws, and
  the retry with \<open>'b'\<close> is a hit that returns the result for \<open>'a'\<close> without running the
  method (the counter stays at 2).
\<close>

theorem memoizedFn_failed_call_example:
  "memoizedFn heap0 (counted flaky) (VRef 0) newCell [VStr ''a''] (0, ()) =
     (Inr (VStr ''result-a''), cellA, (1, ())) \<and>
   memoizedFn heap0 (counted flaky) (VRef 0) cellA [VStr ''b''] (1, ()) =
     (Inl (Thrown (VStr ''failed'')), cellAB, (2, ())) \<and>
   cellAB \<noteq> cellA \<and>
   memoizedFn heap0 (counted flaky) (VRef 0) cellAB [VStr ''b''] (2, ()) =
     (Inr (VStr ''result-a''), cellAB, (2, ()))"
  by code_simp

text \<open>
  Claim C6. \<open>clearMemo\<close> empties \<open>previousArgs\<close>, sets \<open>cachedResult\<close> to
  \<open>undefined\<close> and \<open>calledOnce\<close> to \<open>false\<close>, which is the state of a new cell,
  whatever the state before; doing it twice or on a new cell changes nothing more; and the
  call that follows runs the method exactly once, whatever its arguments.
\<close>

theorem clearMemo_resets:
  "previousArgs (clearMemo c) = [] \<and> cachedResult (clearMemo c) = VUndefined \<and>
   \<not> calledOnce (clearMemo c) \<and>
   clearMemo c = newCell \<and>
   clearMemo (clearMemo c) = clearMemo c \<and>
   clearMemo newCell = newCell \<and>
   (\<exists>c'. memoizedFn h (counted f) this (clearMemo c) args (n, w) =
           (fst (f this args w), c', (Suc n, snd (f this args w))))"
proof -
  have "\<not> calledOnce (clearMemo c)" by (simp add: clearMemo_def)
  then have "isSame h (clearMemo c) args = Inr False" by (simp add: isSame_def)
  then have "\<exists>c'. memoizedFn h (counted f) this (clearMemo c) args (n, w) =
           (fst (f this args w), c', (Suc n, snd (f this args w)))"
    by (cases "f this args w") (auto simp: memoizedFn_miss counted_def split: sum.splits)
  then show ?thesis
    by (simp add: clearMemo_def newCell_def)
qed

theorem clearMemo_resets_witness:
  "clearMemo cellTest = newCell \<and>
   (\<exists>c'. memoizedFn heap0 (counted process) (VRef 0) (clearMemo cellTest) [VStr ''test''] (1, ()) =
     (Inr (VStr ''processed-test''), c', (Suc 1, ())))"
proof -
  note inst = clearMemo_resets [of cellTest heap0 process "VRef 0" "[VStr ''test'']" 1 "()"]
  from inst have reset: "clearMemo cellTest = newCell" by blast
  from inst have
    "\<exists>c'. memoizedFn heap0 (counted process) (VRef 0) (clearMemo cellTest) [VStr ''test''] (1, ()) =
       (fst (process (VRef 0) [VStr ''test''] ()), c', (Suc 1, snd (process (VRef 0) [VStr ''test''] ())))"
    by blast
  then have
    "\<exists>c'. memoizedFn heap0 (counted process) (VRef 0) (clearMemo cellTest) [VStr ''test''] (1, ()) =
       (Inr (VStr ''processed-test''), c', (Suc 1, ()))"
    by (simp add: process_def)
  with reset show ?thesis by blast
qed


section \<open>Properties of the time-bounded cell\<close>

lemma argsEqual_True_iff: "argsEqual h args stored = Inr True \<longleftrightarrow> argsMatch h args stored"
proof -
  let ?E = "everyE (\<lambda>i. deepEqualDefault h (args ! i) (idx stored i)) [0 ..< length args]"
  from everyE_cases [of _ "[0 ..< length args]"]
  have "(case ?E of Inl e \<Rightarrow> Inl e | Inr v \<Rightarrow> Inr (toBoolean v)) = Inr True \<longleftrightarrow> ?E = Inr (VBool True)"
    by (metis (mono_tags, lifting) old.sum.simps(5) old.sum.simps(6) sum.inject(2) sum.simps(4) toBoolean.simps(3))
  then show ?thesis
    by (auto simp: argsEqual_def argsMatch_def everyE_True_iff idx_def)
qed

lemma ttlIsHit_iff:
  "ttlIsHit h c args now = Inr True \<longleftrightarrow> hasRun c \<and> argsMatch h args (storedArgs c) \<and> fresh c now"
proof (cases "argsEqual h args (storedArgs c)")
  case (Inl e)
  then have "\<not> argsMatch h args (storedArgs c)"
    using argsEqual_True_iff [of h args "storedArgs c"] by simp
  with Inl show ?thesis by (simp add: ttlIsHit_def)
next
  case (Inr b)
  then show ?thesis
    using argsEqual_True_iff [of h args "storedArgs c"] by (cases b) (auto simp: ttlIsHit_def)
qed

lemma ttlIsHit_expired:
  assumes "hasRun c" "argsMatch h args (storedArgs c)" "\<not> fresh c now"
  shows "ttlIsHit h c args now = Inr False"
  using assms argsEqual_True_iff [of h args "storedArgs c"] by (simp add: ttlIsHit_def)

lemma invokeTTL_miss:
  "ttlIsHit h c args now = Inr False \<Longrightarrow>
   invokeTTL h f this c args now w =
     (case f this args w of
        (Inl e, w') \<Rightarrow> (Inl e, c, w')
      | (Inr r, w') \<Rightarrow>
          (Inr r, c\<lparr>storedArgs := args, storedResult := Some r, hasRun := True,
                    computedAt := Some now\<rparr>, w'))"
  by (simp add: invokeTTL_def)

lemma invokeTTL_not_counted:
  assumes "invokeTTL h (counted f) this c args now (n, w) = (Inr v, c', (n, w'))"
  shows "ttlIsHit h c args now = Inr True"
proof (cases "ttlIsHit h c args now")
  case (Inl e)
  with assms show ?thesis by (simp add: invokeTTL_def)
next
  case (Inr b)
  show ?thesis
  proof (cases b)
    case True
    with Inr show ?thesis by simp
  next
    case False
    with Inr assms show ?thesis
      by (cases "f this args w") (auto simp: invokeTTL_def counted_def split: sum.splits)
  qed
qed

text \<open>
  Claim C2. A call is a hit exactly when \<open>hasRun\<close> is true, the arguments are equal under
  the rule of the plain cell and the time elapsed since the last computation is strictly
  below \<open>ttlMillis\<close>; a hit returns the stored result without running the computation, and
  a call that returns without having run the computation was a hit. Once the elapsed time
  has reached \<open>ttlMillis\<close>, a call with equal arguments runs the computation exactly once
  and, when it returns, stores its result with the time of this invocation.
\<close>

theorem invokeTTL_hit_and_expiry:
  "(ttlIsHit h c args now = Inr True \<longleftrightarrow>
      hasRun c \<and> argsMatch h args (storedArgs c) \<and>
      (\<exists>t. computedAt c = Some t \<and> now - t < int (ttlMillis c))) \<and>
   (ttlIsHit h c args now = Inr True \<longrightarrow>
      invokeTTL h (counted f) this c args now (n, w) =
        (Inr (case storedResult c of Some r \<Rightarrow> r | None \<Rightarrow> VUndefined), c, (n, w))) \<and>
   (\<forall>v c' w'. invokeTTL h (counted f) this c args now (n, w) = (Inr v, c', (n, w')) \<longrightarrow>
      ttlIsHit h c args now = Inr True) \<and>
   (\<forall>t. hasRun c \<and> argsMatch h args (storedArgs c) \<and> computedAt c = Some t \<and>
        int (ttlMillis c) \<le> now - t \<longrightarrow>
      fst (snd (snd (invokeTTL h (counted f) this c args now (n, w)))) = Suc n \<and>
      (\<forall>v w'. f this args w = (Inr v, w') \<longrightarrow>
         invokeTTL h (counted f) this c args now (n, w) =
           (Inr v,
            c\<lparr>storedArgs := args, storedResult := Some v, hasRun := True, computedAt := Some now\<rparr>,
            (Suc n, w'))))"
proof (intro conjI allI impI)
  show "ttlIsHit h c args now = Inr True \<longleftrightarrow>
      hasRun c \<and> argsMatch h args (storedArgs c) \<and>
      (\<exists>t. computedAt c = Some t \<and> now - t < int (ttlMillis c))"
    by (auto simp: ttlIsHit_iff fresh_def split: option.splits)
next
  assume "ttlIsHit h c args now = Inr True"
  then show "invokeTTL h (counted f) this c args now (n, w) =
        (Inr (case storedResult c of Some r \<Rightarrow> r | None \<Rightarrow> VUndefined), c, (n, w))"
    by (simp add: invokeTTL_def)
next
  fix v c' w'
  assume "invokeTTL h (counted f) this c args now (n, w) = (Inr v, c', (n, w'))"
  then show "ttlIsHit h c args now = Inr True" by (rule invokeTTL_not_counted)
next
  fix t
  assume a: "hasRun c \<and> argsMatch h args (storedArgs c) \<and> computedAt c = Some t \<and>
        int (ttlMillis c) \<le> now - t"
  then have "\<not> fresh c now" by (simp add: fresh_def)
  with a have miss: "ttlIsHit h c args now = Inr False" by (simp add: ttlIsHit_expired)
  show "fst (snd (snd (invokeTTL h (counted f) this c args now (n, w)))) = Suc n"
    by (simp add: invokeTTL_miss [OF miss] counted_def split: prod.splits sum.splits)
  fix v w'
  assume "f this args w = (Inr v, w')"
  then show "invokeTTL h (counted f) this c args now (n, w) =
           (Inr v,
            c\<lparr>storedArgs := args, storedResult := Some v, hasRun := True, computedAt := Some now\<rparr>,
            (Suc n, w'))"
    by (simp add: invokeTTL_miss [OF miss] counted_def)
qed

lemma ttl_example_match: "argsMatch heap0 [VStr ''test''] (storedArgs ttlCellTest)"
  by (simp add: argsMatch_def ttlCellTest_def deepEqualDefault_def deepEqual_identical)

theorem invokeTTL_hit_and_expiry_witness:
  "ttlIsHit heap0 ttlCellTest [VStr ''test''] 10 = Inr True \<and>
   invokeTTL heap0 (counted process) (VRef 0) ttlCellTest [VStr ''test''] 10 (1, ()) =
     (Inr (VStr ''processed-test''), ttlCellTest, (1, ())) \<and>
   hasRun ttlCellTest \<and> argsMatch heap0 [VStr ''test''] (storedArgs ttlCellTest) \<and>
   computedAt ttlCellTest = Some 0 \<and> int (ttlMillis ttlCellTest) \<le> 110 - 0 \<and>
   invokeTTL heap0 (counted process) (VRef 0) ttlCellTest [VStr ''test''] 110 (1, ()) =
     (Inr (VStr ''processed-test''), ttlCellTest\<lparr>computedAt := Some 110\<rparr>, (Suc 1, ()))"
proof -
  have p: "process (VRef 0) [VStr ''test''] () = (Inr (VStr ''processed-test''), ())"
    by (simp add: process_def)
  have c: "hasRun ttlCellTest" "computedAt ttlCellTest = Some 0" "ttlMillis ttlCellTest = 100"
    "storedResult ttlCellTest = Some (VStr ''processed-test'')"
    by (simp_all add: ttlCellTest_def)
  have u: "ttlCellTest\<lparr>storedArgs := [VStr ''test''], storedResult := Some (VStr ''processed-test''),
             hasRun := True, computedAt := Some 110\<rparr> = ttlCellTest\<lparr>computedAt := Some 110\<rparr>"
    by (simp add: ttlCellTest_def)
  from invokeTTL_hit_and_expiry [of heap0 ttlCellTest "[VStr ''test'']" 10 process "VRef 0" 1 "()"]
       invokeTTL_hit_and_expiry [of heap0 ttlCellTest "[VStr ''test'']" 110 process "VRef 0" 1 "()"]
       ttl_example_match p c u
  show ?thesis by simp
qed


section \<open>Properties of the decorator and the registry\<close>

text \<open>
  Claim C5 does not hold of the code. The stage 3 branch calls \<open>createMemoizedMethod\<close> once,
  when the class is defined, and installs that one closure on the prototype: every instance
  calls it, so all instances share one cell. The call on the second instance is a hit on
  what the first instance cached: it returns the result computed for the first instance and
  the method does not run (the counter stays at 1).
\<close>

theorem stage3_cell_shared_example:
  "fst stage3Decorated = Inr (Stage3Method 0) \<and>
   fst stage3First = Inr (VRef 1) \<and> snd (snd stage3First) = (1, ()) \<and>
   fst stage3Second = Inr (VRef 1) \<and> snd (snd stage3Second) = (1, ())"
proof -
  have "fst stage3Decorated = Inr (Stage3Method 0)"
    by (simp add: stage3Decorated_def memoized_def whoContext_def createMemoizedMethod_def
                  initState_def Let_def)
  moreover have "fst stage3First = Inr (VRef 1) \<and> snd (snd stage3First) = (1, ()) \<and>
                 fst stage3Second = Inr (VRef 1) \<and> snd (snd stage3Second) = (1, ())"
    by code_simp
  ultimately show ?thesis by simp
qed

text \<open>
  The legacy branch creates the closure in the getter of the prototype, once for each
  instance: there the second instance computes its own result.
\<close>

lemma legacy_decorated_example:
  "memoized (LegacyArgs ''who'' whoDescriptor) initState =
     (Inr (LegacyMethod ''who'' (counted whoAmI)), initState)"
  by (simp add: memoized_def whoDescriptor_def)

lemma legacy_cells_separate_example:
  "fst legacyFirst = Inr (VRef 1) \<and> snd (snd legacyFirst) = (1, ()) \<and>
   fst legacySecond = Inr (VRef 2) \<and> snd (snd legacySecond) = (2, ())"
  by code_simp

subsection \<open>What the operations leave untouched\<close>


lemma createMemoizedMethod_props [simp]:
  "ownProps (snd (createMemoizedMethod f key inst st)) = ownProps st"
  "cells (snd (createMemoizedMethod f key inst st)) = cells st @ [(f, newCell)]"
  by (simp_all add: createMemoizedMethod_def Let_def split: option.splits)

lemma createMemoizedMethod_number:
  "fst (createMemoizedMethod f key inst st) = Inr fn \<Longrightarrow> fn = length (cells st)"
  by (simp add: createMemoizedMethod_def Let_def split: option.splits if_splits)

lemma createMemoizedMethod_no_instance:
  "fst (createMemoizedMethod f key None st) = Inr (length (cells st))"
  "clearFns (snd (createMemoizedMethod f key None st)) = clearFns st"
  by (simp_all add: createMemoizedMethod_def Let_def)


lemma defineProperty_props [simp]:
  "ownProps (defineProperty ob key p st) = (ownProps st)(ob := (ownProps st ob)(key \<mapsto> p))"
  "cells (defineProperty ob key p st) = cells st"
  "clearFns (defineProperty ob key p st) = clearFns st"
  "registryProto (defineProperty ob key p st) = registryProto st"
  by (simp_all add: defineProperty_def)


lemma clearMemoAt_props [simp]:
  "ownProps (clearMemoAt fn st) = ownProps st"
  "clearFns (clearMemoAt fn st) = clearFns st"
  "registryProto (clearMemoAt fn st) = registryProto st"
  "length (cells (clearMemoAt fn st)) = length (cells st)"
  by (simp_all add: clearMemoAt_def)

lemma fold_clearMemoAt_props [simp]:
  "ownProps (fold (\<lambda>(key, cid). clearMemoAt cid) fns st) = ownProps st"
  "clearFns (fold (\<lambda>(key, cid). clearMemoAt cid) fns st) = clearFns st"
  "registryProto (fold (\<lambda>(key, cid). clearMemoAt cid) fns st) = registryProto st"
  "length (cells (fold (\<lambda>(key, cid). clearMemoAt cid) fns st)) = length (cells st)"
  by (induction fns arbitrary: st) (simp_all split: prod.splits)

lemma clearAllMemoized_props [simp]:
  "ownProps (clearAllMemoized ob st) = ownProps st"
  "clearFns (clearAllMemoized ob st) = clearFns st"
  "registryProto (clearAllMemoized ob st) = registryProto st"
  "length (cells (clearAllMemoized ob st)) = length (cells st)"
  by (simp_all add: clearAllMemoized_def split: option.splits)






subsection \<open>Memoized getters\<close>






subsection \<open>The registry of a legacy class\<close>














lemma registryOf_defineProperty [simp]: "registryOf (defineProperty ob key p st) = registryOf st"
  by (simp add: registryOf_def fun_eq_iff)























text \<open>
  Under the stage 3 decorator \<open>createMemoizedMethod\<close> is called without an instance, so
  nothing is registered: after the call on the instance at address 1 its registry is still
  absent, and after \<open>clearAllMemoized\<close> the same call is still a hit (the counter stays
  at 1).
\<close>

lemma stage3_not_registered_example:
  "clearFns (fst (snd stage3First)) 1 = None \<and>
   snd (snd (callMethod heap0 stage3Class 1 ''who'' [VStr ''x'']
               (clearAllMemoized 1 (fst (snd stage3First))) (snd (snd stage3First)))) = (1, ())"
  by code_simp

text \<open>
  A method named \<open>__proto__\<close> is left out of the registry even under the legacy decorator:
  the assignment of its \<open>clearMemo\<close> changes the prototype of the registry and makes no
  entry. After \<open>ob.__proto__('test')\<close> the method is an own property of the object, the
  registry is empty, and after \<open>clearAllMemoized\<close> the same call is still a hit (the
  counter stays at 1).
\<close>

lemma proto_named_method_example:
  "ownProps (fst calledProto) 1 ''__proto__'' = Some (OwnFn 0) \<and>
   clearFns (fst calledProto) 1 = Some [] \<and>
   registryProto (fst calledProto) 1 = Some 0 \<and>
   snd calledProto = (1, ()) \<and>
   snd (snd (callMethod heap0 protoClass 1 ''__proto__'' [VStr ''test'']
               (clearAllMemoized 1 (fst calledProto)) (snd calledProto))) = (1, ())"
  by code_simp

end
